theory Spec2Isabelle
  imports Main "HOL-Library.AList"
begin

section \<open>Guide Creator Flow: data model\<close>

text \<open>
  The flow of \<^verbatim>\<open>guide_creator_flow/main.py\<close> collects a topic and an audience
  level, asks a language model for an outline, writes every section of the outline with a
  content crew and compiles the sections into one document. Python strings are modelled
  as \<^typ>\<open>string\<close>; a \<^verbatim>\<open>Dict[str, str]\<close> is an association list in
  insertion order, stored into with \<^const>\<open>AList.update\<close> (a key that is present
  keeps its place, a new key goes to the end, as in a Python dict) and read with
  \<^const>\<open>map_of\<close>. Console output of \<^verbatim>\<open>print\<close> is not modelled.
\<close>

text \<open>The body of a request to the HTTP endpoint of \<^verbatim>\<open>server.py\<close>.\<close>

record GuideRequest =
  topic :: string
  target_audience :: string

text \<open>The models of \<^verbatim>\<open>main.py\<close>.\<close>

record Section =
  title :: string
  description :: string

record GuideOutline =
  title :: string
  introduction :: string
  target_audience :: string
  sections :: "Section list"
  conclusion :: string

text \<open>The dictionary passed as \<^verbatim>\<open>inputs\<close> to the content crew, one field per key.\<close>

record crew_inputs =
  section_title :: string
  section_description :: string
  audience_level :: string
  previous_sections :: string
  draft_content :: string

record GuideCreatorState =
  topic :: string
  audience_level :: string
  guide_outline :: "GuideOutline option"
  sections_content :: "(string \<times> string) list"

definition GuideCreatorState_init :: GuideCreatorState where
  "GuideCreatorState_init =
     \<lparr>topic = '''', audience_level = '''', guide_outline = None, sections_content = []\<rparr>"

text \<open>
  The values \<^verbatim>\<open>json.loads\<close> produces. Nothing in the flow computes with a
  floating-point number, so their type is left unspecified.
\<close>

typedecl float64

datatype json =
    JNull
  | JBool bool
  | JInt int
  | JFloat float64
  | JStr string
  | JArr "json list"
  | JObj "(string \<times> json) list"

text \<open>
  Exceptions. The messages of the built-in ones are not modelled; an exception raised
  inside an external capability (the language model, the content crew) is a
  \<open>CapabilityError\<close> carrying what \<^verbatim>\<open>str(e)\<close> gives. \<open>OSError\<close> stands for
  its subclasses raised by \<^verbatim>\<open>open\<close> and \<^verbatim>\<open>os.makedirs\<close>.
\<close>

datatype exn =
    EOFError
  | JSONDecodeError
  | TypeError
  | ValidationError
  | OSError
  | CapabilityError string

section \<open>The world outside the flow\<close>

text \<open>
  Every interaction with an external capability is logged with its outcome
  (\<open>Inl\<close> the message of the exception it raised, \<open>Inr\<close> the text it returned), and
  so is every file written.
\<close>

datatype event =
    LlmCall "(string \<times> string) list" "string + string"
  | Kickoff crew_inputs "string + string"
  | WriteFile string string

record world =
  stdin :: "nat \<Rightarrow> string option"
  stdin_pos :: nat
  dirs :: "string list"
  files :: "(string \<times> string) list"
  events :: "event list"

text \<open>
  The external capabilities and the \<^verbatim>\<open>json\<close> library are parameters.
  \<open>crew_kickoff env n inputs\<close> is the outcome of
  \<^verbatim>\<open>ContentCrew().crew().kickoff(inputs=inputs)\<close> followed by \<^verbatim>\<open>.raw\<close>, when \<open>n\<close>
  kickoffs were made before: the same inputs may be answered differently at another time.
  \<open>json_loads\<close> gives \<open>None\<close> where \<^verbatim>\<open>json.loads\<close> raises
  \<^verbatim>\<open>JSONDecodeError\<close>; \<open>json_dumps\<close> is \<^verbatim>\<open>json.dump\<close> with
  \<^verbatim>\<open>indent=2\<close>.
\<close>

record env =
  llm_call :: "(string \<times> string) list \<Rightarrow> string + string"
  json_loads :: "string \<Rightarrow> json option"
  json_dumps :: "json \<Rightarrow> string"
  crew_kickoff :: "nat \<Rightarrow> crew_inputs \<Rightarrow> string + string"

fun kickoff_log :: "event list \<Rightarrow> (crew_inputs \<times> (string + string)) list" where
  "kickoff_log [] = []"
| "kickoff_log (Kickoff inputs outcome # es) = (inputs, outcome) # kickoff_log es"
| "kickoff_log (e # es) = kickoff_log es"

fun write_log :: "event list \<Rightarrow> (string \<times> string) list" where
  "write_log [] = []"
| "write_log (WriteFile path text # es) = (path, text) # write_log es"
| "write_log (e # es) = write_log es"

definition log :: "event \<Rightarrow> world \<Rightarrow> world" where
  "log e w = w\<lparr>events := events w @ [e]\<rparr>"

subsection \<open>Files\<close>

definition dirname :: "string \<Rightarrow> string" where
  "dirname path =
     (if CHR ''/'' \<in> set path
      then rev (tl (dropWhile (\<lambda>c. c \<noteq> CHR ''/'') (rev path)))
      else '''')"

text \<open>
  \<^verbatim>\<open>os.makedirs(path, exist_ok=True)\<close> for a path of one component: nothing happens
  when the directory exists, a file of that name is an error.
\<close>

definition makedirs :: "string \<Rightarrow> world \<Rightarrow> exn + world" where
  "makedirs path w =
     (if path \<in> set (dirs w) then Inr w
      else if path \<in> fst ` set (files w) then Inl OSError
      else Inr (w\<lparr>dirs := dirs w @ [path]\<rparr>))"

text \<open>
  \<^verbatim>\<open>with open(path, "w") as f: f.write(text)\<close>: the directory of the path has to
  exist (the working directory, \<open>''''\<close>, does) and the path must not be a directory; the
  file is created or overwritten.
\<close>

definition write_file :: "string \<Rightarrow> string \<Rightarrow> world \<Rightarrow> exn + world" where
  "write_file path text w =
     (if (dirname path = '''' \<or> dirname path \<in> set (dirs w)) \<and> path \<notin> set (dirs w)
      then Inr (log (WriteFile path text) (w\<lparr>files := AList.update path text (files w)\<rparr>))
      else Inl OSError)"

section \<open>The input collector: \<^verbatim>\<open>get_user_input\<close>\<close>

text \<open>
  \<^verbatim>\<open>input(prompt)\<close> takes the next line of the standard input; \<open>None\<close> at the
  position read is the end of the input, where Python raises \<^verbatim>\<open>EOFError\<close>.
\<close>

definition input :: "world \<Rightarrow> exn + string \<times> world" where
  "input w =
     (case stdin w (stdin_pos w) of
        None \<Rightarrow> Inl EOFError
      | Some line \<Rightarrow> Inr (line, w\<lparr>stdin_pos := Suc (stdin_pos w)\<rparr>))"

text \<open>
  \<^verbatim>\<open>str.lower\<close> on the letters \<open>A\<close> to \<open>Z\<close>. No other character is
  turned into a letter of the three accepted words by Python's \<^verbatim>\<open>lower\<close>.
\<close>

definition lower_char :: "char \<Rightarrow> char" where
  "lower_char c =
     (case map_of (zip ''ABCDEFGHIJKLMNOPQRSTUVWXYZ'' ''abcdefghijklmnopqrstuvwxyz'') c of
        Some l \<Rightarrow> l
      | None \<Rightarrow> c)"

definition lower :: "string \<Rightarrow> string" where
  "lower s = map lower_char s"

text \<open>
  Lines 89 to 95: the loop \<^verbatim>\<open>while True\<close>. It need not end, so the function is
  partial: \<open>None\<close> is a loop that never returns.
\<close>

partial_function (option) audience_loop ::
  "GuideCreatorState \<Rightarrow> world \<Rightarrow> ((exn + unit) \<times> GuideCreatorState \<times> world) option" where
  "audience_loop st w =
     (case input w of
        Inl e \<Rightarrow> Some (Inl e, st, w)
      | Inr (line, w1) \<Rightarrow>
          (let audience = lower line
           in if audience \<in> set [''beginner'', ''intermediate'', ''advanced'']
              then Some (Inr (), st\<lparr>audience_level := audience\<rparr>, w1)
              else audience_loop st w1))"

declare audience_loop.simps [code]

definition get_user_input ::
  "GuideCreatorState \<Rightarrow> world
     \<Rightarrow> ((exn + GuideCreatorState) \<times> GuideCreatorState \<times> world) option" where
  "get_user_input st w =
     (case input w of
        Inl e \<Rightarrow> Some (Inl e, st, w)
      | Inr (line, w1) \<Rightarrow>
          (case audience_loop (st\<lparr>topic := line\<rparr>) w1 of
             None \<Rightarrow> None
           | Some (Inl e, st2, w2) \<Rightarrow> Some (Inl e, st2, w2)
           | Some (Inr u, st2, w2) \<Rightarrow> Some (Inr st2, st2, w2)))"

section \<open>The outline generator: \<^verbatim>\<open>create_guide_outline\<close>\<close>

text \<open>
  \<^verbatim>\<open>GuideOutline(**outline_dict)\<close>: the keyword arguments are the entries of a JSON
  object (anything else is no mapping, a \<^verbatim>\<open>TypeError\<close>), validated by pydantic
  (version 2, as crewai requires) against the classes of lines 24 to 46: every field is
  required, a \<^verbatim>\<open>str\<close> field takes a string and nothing else, \<^verbatim>\<open>sections\<close> takes a
  list whose elements are objects with the fields of \<^verbatim>\<open>Section\<close>, and keys that name
  no field are ignored.
\<close>

definition str_field :: "(string \<times> json) list \<Rightarrow> string \<Rightarrow> string option" where
  "str_field kvs name = (case map_of kvs name of Some (JStr s) \<Rightarrow> Some s | _ \<Rightarrow> None)"

definition Section_validate :: "json \<Rightarrow> Section option" where
  "Section_validate j =
     (case j of
        JObj kvs \<Rightarrow>
          (case (str_field kvs ''title'', str_field kvs ''description'') of
             (Some t, Some d) \<Rightarrow> Some \<lparr>Section.title = t, description = d\<rparr>
           | _ \<Rightarrow> None)
      | _ \<Rightarrow> None)"

fun sections_validate :: "json list \<Rightarrow> Section list option" where
  "sections_validate [] = Some []"
| "sections_validate (j # js) =
     (case Section_validate j of
        None \<Rightarrow> None
      | Some s \<Rightarrow> (case sections_validate js of None \<Rightarrow> None | Some ss \<Rightarrow> Some (s # ss)))"

definition sections_field :: "(string \<times> json) list \<Rightarrow> Section list option" where
  "sections_field kvs =
     (case map_of kvs ''sections'' of Some (JArr js) \<Rightarrow> sections_validate js | _ \<Rightarrow> None)"

definition GuideOutline_init :: "json \<Rightarrow> exn + GuideOutline" where
  "GuideOutline_init outline_dict =
     (case outline_dict of
        JObj kvs \<Rightarrow>
          (case (str_field kvs ''title'', str_field kvs ''introduction'',
                 str_field kvs ''target_audience'', sections_field kvs,
                 str_field kvs ''conclusion'') of
             (Some t, Some i, Some a, Some ss, Some c) \<Rightarrow>
               Inr \<lparr>title = t, introduction = i, target_audience = a, sections = ss,
                    conclusion = c\<rparr>
           | _ \<Rightarrow> Inl ValidationError)
      | _ \<Rightarrow> Inl TypeError)"

text \<open>Lines 124 to 138: the messages sent to the model.\<close>

definition messages :: "GuideCreatorState \<Rightarrow> (string \<times> string) list" where
  "messages state =
     [(''system'', ''You are a helpful assistant designed to output JSON.''),
      (''user'',
       ''\<newline>            Create a detailed outline for a comprehensive guide on ''
       @ ''\"'' @ topic state @ ''\" for ''
       @ GuideCreatorState.audience_level state @ '' level learners.\<newline>''
       @ ''\<newline>''
       @ ''            The outline should include:\<newline>''
       @ ''            1. A compelling title for the guide\<newline>''
       @ ''            2. An introduction to the topic\<newline>''
       @ ''            3. 4-6 main sections that cover the most important aspects of the topic\<newline>''
       @ ''            4. A conclusion or summary\<newline>''
       @ ''\<newline>''
       @ ''            For each section, provide a clear title and a brief description of what it should cover.\<newline>''
       @ ''            '')]"

text \<open>
  Lines 141 to 156. The outline is stored in the state before the directory is made and
  the file is written, so it stays there when one of them fails.
\<close>

definition create_guide_outline ::
  "env \<Rightarrow> GuideCreatorState \<Rightarrow> world
     \<Rightarrow> (exn + GuideOutline) \<times> GuideCreatorState \<times> world" where
  "create_guide_outline env st w =
     (let response = llm_call env (messages st);
          w1 = log (LlmCall (messages st) response) w
      in case response of
           Inl msg \<Rightarrow> (Inl (CapabilityError msg), st, w1)
         | Inr text \<Rightarrow>
             (case json_loads env text of
                None \<Rightarrow> (Inl JSONDecodeError, st, w1)
              | Some outline_dict \<Rightarrow>
                  (case GuideOutline_init outline_dict of
                     Inl e \<Rightarrow> (Inl e, st, w1)
                   | Inr outline \<Rightarrow>
                       (let st1 = st\<lparr>guide_outline := Some outline\<rparr>
                        in case makedirs ''output'' w1 of
                             Inl e \<Rightarrow> (Inl e, st1, w1)
                           | Inr w2 \<Rightarrow>
                               (case write_file ''output/guide_outline.json''
                                       (json_dumps env outline_dict) w2 of
                                  Inl e \<Rightarrow> (Inl e, st1, w2)
                                | Inr w3 \<Rightarrow> (Inr outline, st1, w3))))))"

section \<open>The section compiler: \<^verbatim>\<open>write_and_compile_guide\<close>\<close>

definition dict_get :: "(string \<times> string) list \<Rightarrow> string \<Rightarrow> string \<Rightarrow> string" where
  "dict_get d k dflt = (case map_of d k of None \<Rightarrow> dflt | Some v \<Rightarrow> v)"

text \<open>Lines 183 to 191: the context built from the sections completed so far.\<close>

definition previous_sections_text :: "string list \<Rightarrow> (string \<times> string) list \<Rightarrow> string" where
  "previous_sections_text completed_sections content =
     (if completed_sections \<noteq> []
      then foldl (\<lambda>text title. text @ (''## '' @ title @ ''\<newline>\<newline>'')
                                       @ (dict_get content title '''' @ ''\<newline>\<newline>''))
             ''# Previously Written Sections\<newline>\<newline>'' completed_sections
      else ''No previous sections written yet.'')"

text \<open>
  Lines 179 to 205: the loop over \<^verbatim>\<open>outline.sections\<close>. An exception of the crew
  leaves the loop; the state and the world are as they were when it was raised.
\<close>

fun write_sections ::
  "env \<Rightarrow> Section list \<Rightarrow> string list \<Rightarrow> GuideCreatorState \<Rightarrow> world
     \<Rightarrow> (exn + string list) \<times> GuideCreatorState \<times> world" where
  "write_sections env [] completed_sections st w = (Inr completed_sections, st, w)"
| "write_sections env (section # rest) completed_sections st w =
     (let inputs = \<lparr>section_title = Section.title section,
                    section_description = description section,
                    audience_level = GuideCreatorState.audience_level st,
                    previous_sections =
                      previous_sections_text completed_sections (sections_content st),
                    draft_content = ''''\<rparr>;
          result = crew_kickoff env (length (kickoff_log (events w))) inputs;
          w1 = log (Kickoff inputs result) w
      in case result of
           Inl msg \<Rightarrow> (Inl (CapabilityError msg), st, w1)
         | Inr raw \<Rightarrow>
             write_sections env rest (completed_sections @ [Section.title section])
               (st\<lparr>sections_content :=
                     AList.update (Section.title section) raw (sections_content st)\<rparr>) w1)"

text \<open>Lines 208 to 218: the text of the guide.\<close>

definition guide_content :: "GuideOutline \<Rightarrow> (string \<times> string) list \<Rightarrow> string" where
  "guide_content outline content =
     foldl (\<lambda>text section.
              text @ ''\<newline>\<newline>'' @ dict_get content (Section.title section) ''''
                   @ ''\<newline>\<newline>'')
       ((''# '' @ GuideOutline.title outline @ ''\<newline>\<newline>'')
          @ (''## Introduction\<newline>\<newline>'' @ introduction outline @ ''\<newline>\<newline>''))
       (sections outline)
     @ (''## Conclusion\<newline>\<newline>'' @ conclusion outline @ ''\<newline>\<newline>'')"

definition write_and_compile_guide ::
  "env \<Rightarrow> GuideOutline \<Rightarrow> GuideCreatorState \<Rightarrow> world
     \<Rightarrow> (exn + string) \<times> GuideCreatorState \<times> world" where
  "write_and_compile_guide env outline st w =
     (case write_sections env (sections outline) [] st w of
        (Inl e, st1, w1) \<Rightarrow> (Inl e, st1, w1)
      | (Inr completed_sections, st1, w1) \<Rightarrow>
          (case write_file ''output/complete_guide.md''
                  (guide_content outline (sections_content st1)) w1 of
             Inl e \<Rightarrow> (Inl e, st1, w1)
           | Inr w2 \<Rightarrow> (Inr ''Guide creation completed successfully'', st1, w2)))"

section \<open>The flow\<close>

text \<open>
  \<^verbatim>\<open>GuideCreatorFlow().kickoff()\<close>: the three steps in the order their
  \<^verbatim>\<open>@listen\<close> decorators give, each on the value the one before returned; an
  exception ends the flow.
\<close>

definition kickoff ::
  "env \<Rightarrow> world \<Rightarrow> ((exn + string) \<times> GuideCreatorState \<times> world) option" where
  "kickoff env w =
     (case get_user_input GuideCreatorState_init w of
        None \<Rightarrow> None
      | Some (Inl e, st1, w1) \<Rightarrow> Some (Inl e, st1, w1)
      | Some (Inr state, st1, w1) \<Rightarrow>
          (case create_guide_outline env st1 w1 of
             (Inl e, st2, w2) \<Rightarrow> Some (Inl e, st2, w2)
           | (Inr outline, st2, w2) \<Rightarrow> Some (write_and_compile_guide env outline st2 w2)))"

section \<open>The HTTP endpoint: \<^verbatim>\<open>create_guide\<close> of \<^verbatim>\<open>server.py\<close>\<close>

datatype HTTPException = HTTPException nat string

text \<open>
  The class \<^verbatim>\<open>ContentCrew\<close> is not among the sources, so what the endpoint needs of
  it is a parameter: \<open>ContentCrew_init\<close> is the message of the exception the constructor
  raises, if it raises one, and \<open>crew_run\<close> that of looking up the attribute
  \<^verbatim>\<open>run\<close> of the crew. \<^verbatim>\<open>background_tasks.add_task(crew.run, outline)\<close> puts the
  call at the end of the tasks to run after the response; a task is written as the outline
  it will be run on. Building the outline from strings cannot fail. The endpoint has no
  access to the language model: \<^verbatim>\<open>create_guide_outline\<close> is not part of it.
\<close>

definition create_guide ::
  "string option \<Rightarrow> string option \<Rightarrow> GuideRequest \<Rightarrow> GuideOutline list
     \<Rightarrow> (HTTPException + (string \<times> string) list) \<times> GuideOutline list" where
  "create_guide ContentCrew_init crew_run request background_tasks =
     (case ContentCrew_init of
        Some e \<Rightarrow> (Inl (HTTPException 500 e), background_tasks)
      | None \<Rightarrow>
          (let outline =
                 \<lparr>GuideOutline.title = ''Comprehensive Guide to '' @ GuideRequest.topic request,
                  introduction = '''',
                  GuideOutline.target_audience = GuideRequest.target_audience request,
                  sections = [],
                  conclusion = ''''\<rparr>
           in case crew_run of
                Some e \<Rightarrow> (Inl (HTTPException 500 e), background_tasks)
              | None \<Rightarrow>
                  (Inr [(''status'', ''Guide creation task started successfully''),
                        (''topic'', GuideRequest.topic request),
                        (''target_audience'', GuideRequest.target_audience request)],
                   background_tasks @ [outline])))"

section \<open>Notions used in the statements\<close>

text \<open>
  The content list after the texts \<open>rs\<close> were stored for the sections \<open>secs\<close>, one
  after the other.
\<close>

definition stored :: "(string \<times> string) list \<Rightarrow> Section list \<Rightarrow> string list \<Rightarrow> (string \<times> string) list" where
  "stored d secs rs = foldl (\<lambda>d (s, r). AList.update (Section.title s) r d) d (zip secs rs)"

text \<open>
  The inputs of the invocation for section \<open>i\<close> of \<open>secs\<close>, when the loop started
  with the audience level \<open>a\<close>, the completed titles \<open>completed\<close> and the contents
  \<open>d\<close>, and the texts \<open>rs\<close> were returned for the sections before; \<open>calls\<close> is
  the log of the first \<open>n\<close> invocations.
\<close>

definition call_inputs ::
  "string \<Rightarrow> string list \<Rightarrow> (string \<times> string) list \<Rightarrow> Section list \<Rightarrow> string list \<Rightarrow> nat \<Rightarrow> crew_inputs" where
  "call_inputs a completed d secs rs i =
     \<lparr>section_title = Section.title (secs ! i),
      section_description = description (secs ! i),
      audience_level = a,
      previous_sections =
        previous_sections_text (completed @ map Section.title (take i secs)) (stored d (take i secs) rs),
      draft_content = ''''\<rparr>"

definition calls :: "string \<Rightarrow> string list \<Rightarrow> (string \<times> string) list \<Rightarrow> Section list \<Rightarrow> string list \<Rightarrow> nat \<Rightarrow> event list" where
  "calls a completed d secs rs n =
     map (\<lambda>i. Kickoff (call_inputs a completed d secs rs i) (Inr (rs ! i))) [0..<n]"

text \<open>
  What a run of the loop comes to when the crew returned the texts \<open>rs\<close>: either a text
  for every section, or a text for some sections and an exception at the next.
\<close>

definition loop_outcome ::
  "Section list \<Rightarrow> string list \<Rightarrow> GuideCreatorState \<Rightarrow> world \<Rightarrow> string list \<Rightarrow>
   (exn + string list) \<times> GuideCreatorState \<times> world \<Rightarrow> bool" where
  "loop_outcome secs completed st w rs out =
     (let a = GuideCreatorState.audience_level st; d = sections_content st;
          st' = st\<lparr>sections_content := stored d secs rs\<rparr>
      in (length rs = length secs \<and>
          out = (Inr (completed @ map Section.title secs), st',
                 w\<lparr>events := events w @ calls a completed d secs rs (length secs)\<rparr>))
       \<or> (length rs < length secs \<and>
          (\<exists>msg. out = (Inl (CapabilityError msg), st',
                 w\<lparr>events := events w @ calls a completed d secs rs (length rs)
                     @ [Kickoff (call_inputs a completed d secs rs (length rs)) (Inl msg)]\<rparr>))))"

text \<open>The index of the last of the first \<open>n\<close> sections that has the title \<open>t\<close>.\<close>

definition last_with_title :: "Section list \<Rightarrow> nat \<Rightarrow> string \<Rightarrow> nat" where
  "last_with_title secs n t = last (filter (\<lambda>k. Section.title (secs ! k) = t) [0..<n])"

text \<open>What a step adds to the log, between the world before it and the world after it.\<close>

definition new_kickoffs :: "world \<Rightarrow> world \<Rightarrow> (crew_inputs \<times> (string + string)) list" where
  "new_kickoffs w w' = drop (length (kickoff_log (events w))) (kickoff_log (events w'))"

definition new_events :: "world \<Rightarrow> world \<Rightarrow> event list" where
  "new_events w w' = drop (length (events w)) (events w')"

text \<open>
  What a run of the section compiler comes to when the crew returned the texts \<open>rs\<close>:
  the guide is written, writing it fails, or an invocation of the crew raised.
\<close>

definition compile_outcome ::
  "GuideOutline \<Rightarrow> GuideCreatorState \<Rightarrow> world \<Rightarrow> string list \<Rightarrow>
   (exn + string) \<times> GuideCreatorState \<times> world \<Rightarrow> bool" where
  "compile_outcome outline st w rs out =
     (let secs = sections outline;
          a = GuideCreatorState.audience_level st; d = sections_content st;
          st' = st\<lparr>sections_content := stored d secs rs\<rparr>;
          doc = guide_content outline (stored d secs rs);
          w1 = w\<lparr>events := events w @ calls a [] d secs rs (length secs)\<rparr>
      in (length rs = length secs \<and>
            (dirname ''output/complete_guide.md'' \<in> set (dirs w)
               \<and> ''output/complete_guide.md'' \<notin> set (dirs w)) \<and>
            out = (Inr ''Guide creation completed successfully'', st',
                   w\<lparr>files := AList.update ''output/complete_guide.md'' doc (files w),
                     events := events w @ calls a [] d secs rs (length secs)
                                 @ [WriteFile ''output/complete_guide.md'' doc]\<rparr>))
       \<or> (length rs = length secs \<and> out = (Inl OSError, st', w1))
       \<or> (length rs < length secs \<and>
          (\<exists>msg. out = (Inl (CapabilityError msg), st',
                 w\<lparr>events := events w @ calls a [] d secs rs (length rs)
                     @ [Kickoff (call_inputs a [] d secs rs (length rs)) (Inl msg)]\<rparr>))))"

text \<open>
  The JSON object of the outline shape for an outline value, one entry per field of the
  classes of lines 24 to 46 (what pydantic's \<^verbatim>\<open>model_dump\<close> gives).
\<close>

definition Section_to_json :: "Section \<Rightarrow> json" where
  "Section_to_json s =
     JObj [(''title'', JStr (Section.title s)), (''description'', JStr (description s))]"

definition GuideOutline_to_json :: "GuideOutline \<Rightarrow> json" where
  "GuideOutline_to_json outline =
     JObj [(''title'', JStr (GuideOutline.title outline)),
           (''introduction'', JStr (introduction outline)),
           (''target_audience'', JStr (target_audience outline)),
           (''sections'', JArr (map Section_to_json (sections outline))),
           (''conclusion'', JStr (conclusion outline))]"

section \<open>Example runs\<close>

definition demo_outline :: GuideOutline where
  "demo_outline =
     \<lparr>title = ''Home Gardening'', introduction = ''Welcome.'', target_audience = ''beginner'',
      sections = [\<lparr>Section.title = ''Getting Started'', description = ''First steps''\<rparr>,
                  \<lparr>Section.title = ''Tools'', description = ''What to buy''\<rparr>],
      conclusion = ''Enjoy.''\<rparr>"

definition demo_env :: env where
  "demo_env =
     \<lparr>llm_call = (\<lambda>messages. Inr ''{}''),
      json_loads = (\<lambda>text. None),
      json_dumps = (\<lambda>j. ''{}''),
      crew_kickoff = (\<lambda>n inputs. Inr (''## '' @ section_title inputs @ '': '' @ section_description inputs))\<rparr>"

definition demo_state :: GuideCreatorState where
  "demo_state = GuideCreatorState_init\<lparr>topic := ''Home Gardening'', audience_level := ''beginner''\<rparr>"

definition demo_world :: world where
  "demo_world = \<lparr>stdin = (\<lambda>n. None), stdin_pos = 0, dirs = [''output''], files = [], events = []\<rparr>"

definition repeated_outline :: GuideOutline where
  "repeated_outline =
     \<lparr>title = ''Home Gardening'', introduction = ''Welcome.'', target_audience = ''beginner'',
      sections = [\<lparr>Section.title = ''Soil'', description = ''Kinds of soil''\<rparr>,
                  \<lparr>Section.title = ''Tools'', description = ''What to buy''\<rparr>,
                  \<lparr>Section.title = ''Soil'', description = ''Improving it''\<rparr>],
      conclusion = ''Enjoy.''\<rparr>"

definition failing_env :: env where
  "failing_env =
     demo_env\<lparr>crew_kickoff :=
       (\<lambda>n inputs. if n = 1 then Inl ''rate limit exceeded'' else crew_kickoff demo_env n inputs)\<rparr>"

definition typed_world :: world where
  "typed_world =
     \<lparr>stdin = (\<lambda>n. if n = 0 then Some ''Home Gardening''
                      else if n = 1 then Some ''expert''
                      else if n = 2 then Some ''Beginner'' else None),
      stdin_pos = 0, dirs = [], files = [], events = []\<rparr>"

definition stubborn_world :: world where
  "stubborn_world =
     \<lparr>stdin = (\<lambda>n. Some ''expert''), stdin_pos = 0, dirs = [], files = [], events = []\<rparr>"

definition demo_response :: string where
  "demo_response =
     ''{\<newline>  \"title\": \"Home Gardening\",\<newline>  \"introduction\": \"Welcome.\",\<newline>''
     @ ''  \"target_audience\": \"beginner\",\<newline>  \"sections\": [\<newline>''
     @ ''    {\<newline>      \"title\": \"Getting Started\",\<newline>      \"description\": \"First steps\"\<newline>    },\<newline>''
     @ ''    {\<newline>      \"title\": \"Tools\",\<newline>      \"description\": \"What to buy\"\<newline>    }\<newline>''
     @ ''  ],\<newline>  \"conclusion\": \"Enjoy.\"\<newline>}''"

definition demo_outline_dict :: json where
  "demo_outline_dict =
     JObj [(''title'', JStr ''Home Gardening''),
           (''introduction'', JStr ''Welcome.''),
           (''target_audience'', JStr ''beginner''),
           (''sections'',
            JArr [JObj [(''title'', JStr ''Getting Started''), (''description'', JStr ''First steps'')],
                  JObj [(''title'', JStr ''Tools''), (''description'', JStr ''What to buy'')]]),
           (''conclusion'', JStr ''Enjoy.'')]"

definition outline_env :: env where
  "outline_env =
     demo_env\<lparr>llm_call := (\<lambda>messages. Inr demo_response),
       json_loads := (\<lambda>text. if text = demo_response then Some demo_outline_dict
                              else if text = ''[]'' then Some (JArr [])
                              else None),
       json_dumps := (\<lambda>j. demo_response)\<rparr>"

definition chatty_env :: env where
  "chatty_env = outline_env\<lparr>llm_call := (\<lambda>messages. Inr ''Sure! Here is your outline:'')\<rparr>"

definition listing_env :: env where
  "listing_env = outline_env\<lparr>llm_call := (\<lambda>messages. Inr ''[]'')\<rparr>"

definition demo_request :: GuideRequest where
  "demo_request = \<lparr>GuideRequest.topic = ''Home Gardening'', target_audience = ''beginner''\<rparr>"

definition outlined_world :: world where
  "outlined_world =
     typed_world\<lparr>stdin_pos := 3, dirs := [''output''],
        files := [(''output/guide_outline.json'', demo_response)],
        events := [LlmCall (messages demo_state) (Inr demo_response),
                   WriteFile ''output/guide_outline.json'' demo_response]\<rparr>"

section \<open>Properties\<close>

subsection \<open>The loop of the section compiler\<close>

text \<open>
  A run of the loop is described by the texts the crew returned: they determine the inputs of every invocation, the contents stored and the log.
\<close>

lemma stored_Nil [simp]: "stored d [] rs = d" "stored d secs [] = d"
  by (simp_all add: stored_def)

lemma stored_Cons [simp]:
  "stored d (s # secs) (r # rs) = stored (AList.update (Section.title s) r d) secs rs"
  by (simp add: stored_def)

lemma call_inputs_0:
  "call_inputs a completed d (s # rest) rs 0 =
     \<lparr>section_title = Section.title s, section_description = description s,
      audience_level = a, previous_sections = previous_sections_text completed d,
      draft_content = ''''\<rparr>"
  by (simp add: call_inputs_def)

lemma call_inputs_Suc:
  "call_inputs a completed d (s # rest) (r # rs) (Suc i) =
   call_inputs a (completed @ [Section.title s]) (AList.update (Section.title s) r d) rest rs i"
  by (simp add: call_inputs_def)

lemma calls_0 [simp]: "calls a completed d secs rs 0 = []"
  by (simp add: calls_def)

lemma calls_Suc:
  "calls a completed d (s # rest) (r # rs) (Suc n) =
     Kickoff (call_inputs a completed d (s # rest) [] 0) (Inr r)
       # calls a (completed @ [Section.title s]) (AList.update (Section.title s) r d) rest rs n"
  unfolding calls_def map_upt_Suc
  by (simp add: call_inputs_Suc call_inputs_0 del: upt_Suc)

lemma write_sections_Cons_Inl:
  "crew_kickoff env (length (kickoff_log (events w)))
      (call_inputs (GuideCreatorState.audience_level st) completed (sections_content st) (s # rest) [] 0) = Inl msg \<Longrightarrow>
   write_sections env (s # rest) completed st w =
     (Inl (CapabilityError msg), st,
      log (Kickoff (call_inputs (GuideCreatorState.audience_level st) completed (sections_content st) (s # rest) [] 0) (Inl msg)) w)"
  by (simp add: call_inputs_0 Let_def)

lemma write_sections_Cons_Inr:
  "crew_kickoff env (length (kickoff_log (events w)))
      (call_inputs (GuideCreatorState.audience_level st) completed (sections_content st) (s # rest) [] 0) = Inr raw \<Longrightarrow>
   write_sections env (s # rest) completed st w =
     write_sections env rest (completed @ [Section.title s])
       (st\<lparr>sections_content := AList.update (Section.title s) raw (sections_content st)\<rparr>)
       (log (Kickoff (call_inputs (GuideCreatorState.audience_level st) completed (sections_content st) (s # rest) [] 0) (Inr raw)) w)"
  by (simp add: call_inputs_0 Let_def)

lemma write_sections_run:
  "\<exists>rs. loop_outcome secs completed st w rs (write_sections env secs completed st w)"
proof (induction secs arbitrary: completed st w)
  case Nil
  show ?case by (rule exI[of _ "[]"]) (simp add: loop_outcome_def)
next
  case (Cons s rest)
  let ?a = "GuideCreatorState.audience_level st"
  let ?d = "sections_content st"
  let ?inp = "call_inputs ?a completed ?d (s # rest) [] 0"
  let ?out = "crew_kickoff env (length (kickoff_log (events w))) ?inp"
  show ?case
  proof (cases ?out)
    case (Inl msg)
    show ?thesis
      unfolding write_sections_Cons_Inl[OF Inl]
      by (rule exI[of _ "[]"]) (simp add: loop_outcome_def log_def)
  next
    case (Inr raw)
    let ?st1 = "st\<lparr>sections_content := AList.update (Section.title s) raw ?d\<rparr>"
    let ?w1 = "log (Kickoff ?inp (Inr raw)) w"
    from Cons.IH[of "completed @ [Section.title s]" ?st1 ?w1] obtain rs where
      rs: "loop_outcome rest (completed @ [Section.title s]) ?st1 ?w1 rs
             (write_sections env rest (completed @ [Section.title s]) ?st1 ?w1)"
      by blast
    have "loop_outcome (s # rest) completed st w (raw # rs)
            (write_sections env rest (completed @ [Section.title s]) ?st1 ?w1)"
      using rs unfolding loop_outcome_def Let_def
      by (elim disjE conjE exE)
         (simp_all add: calls_Suc call_inputs_Suc call_inputs_0 log_def)
    then show ?thesis
      unfolding write_sections_Cons_Inr[OF Inr] by blast
  qed
qed

lemma loop_outcome_cases:
  assumes "loop_outcome secs completed st w rs (r, st1, w1)"
  obtains
    (completed) "length rs = length secs" "r = Inr (completed @ map Section.title secs)"
      "st1 = st\<lparr>sections_content := stored (sections_content st) secs rs\<rparr>"
      "files w1 = files w" "dirs w1 = dirs w"
      "events w1 = events w @
         calls (GuideCreatorState.audience_level st) completed (sections_content st) secs rs (length rs)"
  | (failed) msg where "length rs < length secs" "r = Inl (CapabilityError msg)"
      "st1 = st\<lparr>sections_content := stored (sections_content st) secs rs\<rparr>"
      "files w1 = files w" "dirs w1 = dirs w"
      "events w1 = events w @
         (calls (GuideCreatorState.audience_level st) completed (sections_content st) secs rs (length rs)
          @ [Kickoff (call_inputs (GuideCreatorState.audience_level st) completed (sections_content st)
                        secs rs (length rs)) (Inl msg)])"
  using assms unfolding loop_outcome_def Let_def
  by (elim disjE conjE exE) simp_all

lemma write_sections_append:
  "write_sections env (xs @ ys) completed st w =
     (case write_sections env xs completed st w of
        (Inl e, st1, w1) \<Rightarrow> (Inl e, st1, w1)
      | (Inr completed1, st1, w1) \<Rightarrow> write_sections env ys completed1 st1 w1)"
  by (induction xs arbitrary: completed st w) (simp_all add: Let_def split: sum.splits)

subsection \<open>The log\<close>

lemma kickoff_log_append: "kickoff_log (xs @ ys) = kickoff_log xs @ kickoff_log ys"
  by (induction xs rule: kickoff_log.induct) simp_all

lemma write_log_append: "write_log (xs @ ys) = write_log xs @ write_log ys"
  by (induction xs rule: write_log.induct) simp_all

lemma kickoff_log_map:
  "kickoff_log (map (\<lambda>i. Kickoff (f i) (g i)) ns) = map (\<lambda>i. (f i, g i)) ns"
  by (induction ns) simp_all

lemma write_log_map: "write_log (map (\<lambda>i. Kickoff (f i) (g i)) ns) = []"
  by (induction ns) simp_all

lemma kickoff_log_calls:
  "kickoff_log (calls a completed d secs rs n) =
     map (\<lambda>i. (call_inputs a completed d secs rs i, Inr (rs ! i))) [0..<n]"
  unfolding calls_def by (rule kickoff_log_map)

lemma write_log_calls: "write_log (calls a completed d secs rs n) = []"
  unfolding calls_def by (rule write_log_map)

lemma Kickoff_kickoff_log_calls:
  "map (\<lambda>(inputs, result). Kickoff inputs result) (kickoff_log (calls a completed d secs rs n))
     = calls a completed d secs rs n"
  by (simp add: kickoff_log_calls) (simp add: calls_def)

lemma isl_kickoff_log_calls:
  "c \<in> set (kickoff_log (calls a completed d secs rs n)) \<Longrightarrow> \<not> isl (snd c)"
  by (auto simp add: kickoff_log_calls)

lemma new_kickoffs_append:
  "events w' = events w @ es \<Longrightarrow> new_kickoffs w w' = kickoff_log es"
  by (simp add: new_kickoffs_def kickoff_log_append)

lemma new_events_append:
  "events w' = events w @ es \<Longrightarrow> new_events w w' = es"
  by (simp add: new_events_def)

subsection \<open>Runs of the section compiler\<close>

text \<open>
  A run ends in one of three ways: the guide is written, writing it fails, or an invocation of the crew raises.
\<close>

lemma dirname_guide [simp]: "dirname ''output/complete_guide.md'' = ''output''"
  by (simp add: dirname_def)

lemma write_and_compile_guide_run:
  "\<exists>rs. compile_outcome outline st w rs (write_and_compile_guide env outline st w)"
proof -
  obtain rs where rs:
    "loop_outcome (sections outline) [] st w rs (write_sections env (sections outline) [] st w)"
    using write_sections_run by blast
  let ?d = "sections_content st"
  let ?a = "GuideCreatorState.audience_level st"
  let ?st' = "st\<lparr>sections_content := stored ?d (sections outline) rs\<rparr>"
  from rs consider
    (ok) "length rs = length (sections outline)"
         "write_sections env (sections outline) [] st w =
            (Inr ([] @ map Section.title (sections outline)), ?st',
             w\<lparr>events := events w @ calls ?a [] ?d (sections outline) rs (length (sections outline))\<rparr>)"
  | (fail) msg where "length rs < length (sections outline)"
         "write_sections env (sections outline) [] st w =
            (Inl (CapabilityError msg), ?st',
             w\<lparr>events := events w @ calls ?a [] ?d (sections outline) rs (length rs)
                 @ [Kickoff (call_inputs ?a [] ?d (sections outline) rs (length rs)) (Inl msg)]\<rparr>)"
    unfolding loop_outcome_def Let_def by blast
  then have "compile_outcome outline st w rs (write_and_compile_guide env outline st w)"
  proof cases
    case ok
    show ?thesis
      unfolding write_and_compile_guide_def ok(2) compile_outcome_def Let_def
      using ok(1) by (simp add: write_file_def log_def)
  next
    case fail
    show ?thesis
      unfolding write_and_compile_guide_def fail(2) compile_outcome_def Let_def
      using fail(1) by simp
  qed
  then show ?thesis ..
qed

lemma compile_outcome_cases:
  assumes "compile_outcome outline st w rs (res, st', w')"
  obtains
    (written) "length rs = length (sections outline)"
      "res = Inr ''Guide creation completed successfully''"
      "st' = st\<lparr>sections_content := stored (sections_content st) (sections outline) rs\<rparr>"
      "files w' = AList.update ''output/complete_guide.md''
                     (guide_content outline (sections_content st')) (files w)"
      "dirs w' = dirs w"
      "events w' = events w @
         (calls (GuideCreatorState.audience_level st) [] (sections_content st) (sections outline) rs
            (length rs)
          @ [WriteFile ''output/complete_guide.md'' (guide_content outline (sections_content st'))])"
  | (oserror) "length rs = length (sections outline)"
      "res = Inl OSError"
      "st' = st\<lparr>sections_content := stored (sections_content st) (sections outline) rs\<rparr>"
      "files w' = files w" "dirs w' = dirs w"
      "events w' = events w @
         calls (GuideCreatorState.audience_level st) [] (sections_content st) (sections outline) rs
            (length rs)"
  | (failed) msg where "length rs < length (sections outline)"
      "res = Inl (CapabilityError msg)"
      "st' = st\<lparr>sections_content := stored (sections_content st) (sections outline) rs\<rparr>"
      "files w' = files w" "dirs w' = dirs w"
      "events w' = events w @
         (calls (GuideCreatorState.audience_level st) [] (sections_content st) (sections outline) rs
            (length rs)
          @ [Kickoff (call_inputs (GuideCreatorState.audience_level st) [] (sections_content st)
                        (sections outline) rs (length rs)) (Inl msg)])"
  using assms unfolding compile_outcome_def Let_def
  by (elim disjE conjE exE) simp_all

lemma compile_outcome_log:
  assumes "compile_outcome outline st w rs (res, st', w')"
  shows "length rs \<le> length (sections outline)"
    and "kickoff_log (events w') = kickoff_log (events w) @ new_kickoffs w w'"
    and "st' = st\<lparr>sections_content := stored (sections_content st) (sections outline) rs\<rparr>"
    and "(\<forall>msg. res \<noteq> Inl (CapabilityError msg)) \<Longrightarrow>
           length rs = length (sections outline) \<and>
           new_kickoffs w w' =
             map (\<lambda>i. (call_inputs (GuideCreatorState.audience_level st) [] (sections_content st)
                          (sections outline) rs i, Inr (rs ! i))) [0..<length rs]"
    and "res = Inl (CapabilityError msg) \<Longrightarrow>
           length rs < length (sections outline) \<and>
           new_kickoffs w w' =
             map (\<lambda>i. (call_inputs (GuideCreatorState.audience_level st) [] (sections_content st)
                          (sections outline) rs i, Inr (rs ! i))) [0..<length rs]
             @ [(call_inputs (GuideCreatorState.audience_level st) [] (sections_content st)
                          (sections outline) rs (length rs), Inl msg)]"
proof -
  let ?a = "GuideCreatorState.audience_level st"
  let ?d = "sections_content st"
  let ?secs = "sections outline"
  from assms consider
    (written) "length rs = length ?secs" "\<forall>msg. res \<noteq> Inl (CapabilityError msg)"
      "st' = st\<lparr>sections_content := stored ?d ?secs rs\<rparr>"
      "events w' = events w @ (calls ?a [] ?d ?secs rs (length rs)
                  @ [WriteFile ''output/complete_guide.md'' (guide_content outline (stored ?d ?secs rs))])"
  | (oserr) "length rs = length ?secs" "\<forall>msg. res \<noteq> Inl (CapabilityError msg)"
      "st' = st\<lparr>sections_content := stored ?d ?secs rs\<rparr>"
      "events w' = events w @ calls ?a [] ?d ?secs rs (length rs)"
  | (fail) m where "length rs < length ?secs" "res = Inl (CapabilityError m)"
      "st' = st\<lparr>sections_content := stored ?d ?secs rs\<rparr>"
      "events w' = events w @ (calls ?a [] ?d ?secs rs (length rs)
                  @ [Kickoff (call_inputs ?a [] ?d ?secs rs (length rs)) (Inl m)])"
    unfolding compile_outcome_def Let_def by (elim disjE conjE exE) simp_all
  note cases = this
  show "length rs \<le> length (sections outline)" by (rule cases) simp_all
  show "st' = st\<lparr>sections_content := stored (sections_content st) (sections outline) rs\<rparr>"
    by (rule cases) simp_all
  show "kickoff_log (events w') = kickoff_log (events w) @ new_kickoffs w w'"
    by (rule cases) (simp_all add: new_kickoffs_def kickoff_log_append)
  show "length rs = length (sections outline) \<and>
           new_kickoffs w w' =
             map (\<lambda>i. (call_inputs ?a [] ?d ?secs rs i, Inr (rs ! i))) [0..<length rs]"
    if "\<forall>msg. res \<noteq> Inl (CapabilityError msg)"
  proof (rule cases)
    assume "events w' = events w @ (calls ?a [] ?d ?secs rs (length rs)
                  @ [WriteFile ''output/complete_guide.md'' (guide_content outline (stored ?d ?secs rs))])"
       and "length rs = length ?secs"
    then show ?thesis
      by (simp add: new_kickoffs_append kickoff_log_append kickoff_log_calls)
  next
    assume "events w' = events w @ calls ?a [] ?d ?secs rs (length rs)"
       and "length rs = length ?secs"
    then show ?thesis
      by (simp add: new_kickoffs_append kickoff_log_calls)
  next
    fix m assume "res = Inl (CapabilityError m)"
    with that show ?thesis by simp
  qed
  show "length rs < length (sections outline) \<and>
           new_kickoffs w w' =
             map (\<lambda>i. (call_inputs ?a [] ?d ?secs rs i, Inr (rs ! i))) [0..<length rs]
             @ [(call_inputs ?a [] ?d ?secs rs (length rs), Inl msg)]"
    if "res = Inl (CapabilityError msg)"
  proof (rule cases)
    fix m assume "res = Inl (CapabilityError m)" "length rs < length ?secs"
      "events w' = events w @ (calls ?a [] ?d ?secs rs (length rs)
                  @ [Kickoff (call_inputs ?a [] ?d ?secs rs (length rs)) (Inl m)])"
    with that show ?thesis
      by (simp add: new_kickoffs_append kickoff_log_append kickoff_log_calls)
  qed (use that in simp_all)
qed

lemma compile_outcome_new_kickoffs:
  assumes "compile_outcome outline st w rs (res, st', w')"
  shows "length rs \<le> length (new_kickoffs w w')"
    and "length (new_kickoffs w w') \<le> length (sections outline)"
    and "i < length (new_kickoffs w w') \<Longrightarrow>
           fst (new_kickoffs w w' ! i) =
             call_inputs (GuideCreatorState.audience_level st) [] (sections_content st)
               (sections outline) rs i"
    and "i < length rs \<Longrightarrow> snd (new_kickoffs w w' ! i) = Inr (rs ! i)"
    and "length rs \<le> i \<Longrightarrow> i < length (new_kickoffs w w') \<Longrightarrow>
           i = length rs \<and> (\<exists>msg. snd (new_kickoffs w w' ! i) = Inl msg \<and> res = Inl (CapabilityError msg))"
proof -
  note log = compile_outcome_log[OF assms]
  let ?f = "\<lambda>i. (call_inputs (GuideCreatorState.audience_level st) [] (sections_content st)
                          (sections outline) rs i, Inr (rs ! i) :: string + string)"
  consider (ok) "\<forall>msg. res \<noteq> Inl (CapabilityError msg)"
      "length rs = length (sections outline)"
      "new_kickoffs w w' = map ?f [0..<length rs]"
    | (fail) msg where "res = Inl (CapabilityError msg)"
      "length rs < length (sections outline)"
      "new_kickoffs w w' = map ?f [0..<length rs]
         @ [(call_inputs (GuideCreatorState.audience_level st) [] (sections_content st)
                          (sections outline) rs (length rs), Inl msg)]"
    using log(4) log(5) by (cases "\<exists>msg. res = Inl (CapabilityError msg)") auto
  note cases = this
  show "length rs \<le> length (new_kickoffs w w')" by (rule cases) simp_all
  show "length (new_kickoffs w w') \<le> length (sections outline)" by (rule cases) simp_all
  show "fst (new_kickoffs w w' ! i) =
             call_inputs (GuideCreatorState.audience_level st) [] (sections_content st)
               (sections outline) rs i" if "i < length (new_kickoffs w w')"
    by (rule cases) (use that in \<open>auto simp add: nth_append less_Suc_eq\<close>)
  show "snd (new_kickoffs w w' ! i) = Inr (rs ! i)" if "i < length rs"
    by (rule cases) (use that in \<open>simp_all add: nth_append\<close>)
  show "i = length rs \<and> (\<exists>msg. snd (new_kickoffs w w' ! i) = Inl msg \<and> res = Inl (CapabilityError msg))"
    if "length rs \<le> i" "i < length (new_kickoffs w w')"
    by (rule cases) (use that in \<open>auto simp add: nth_append\<close>)
qed

lemma compile_outcome_completed:
  assumes "compile_outcome outline st w rs (Inr msg, st', w')"
  shows "length rs = length (sections outline)"
    and "st' = st\<lparr>sections_content := stored (sections_content st) (sections outline) rs\<rparr>"
    and "files w' = AList.update ''output/complete_guide.md''
                      (guide_content outline (sections_content st')) (files w)"
    and "new_events w w' =
           calls (GuideCreatorState.audience_level st) [] (sections_content st) (sections outline) rs
             (length (sections outline))
           @ [WriteFile ''output/complete_guide.md'' (guide_content outline (sections_content st'))]"
    and "dirs w' = dirs w"
  using assms unfolding compile_outcome_def Let_def
  by (auto simp add: new_events_def)

lemma write_and_compile_guide_events:
  assumes "write_and_compile_guide env outline st w = (res, st', w')"
      and "write_sections env (sections outline) [] st w = (r, st1, w1)"
  shows "\<exists>es. events w' = events w1 @ es \<and> kickoff_log es = []"
  using assms
  by (auto simp add: write_and_compile_guide_def write_file_def log_def
        split: sum.splits if_splits)

lemma prefix_run_log:
  assumes full: "write_and_compile_guide env outline st w = (res, st', w')"
      and pre: "write_sections env (take n (sections outline)) [] st w = (r, st1, w1)"
  shows "new_kickoffs w w1 = take n (new_kickoffs w w')"
proof -
  let ?secs = "sections outline"
  let ?a = "GuideCreatorState.audience_level st"
  let ?d = "sections_content st"
  obtain r2 st2 w2 where loop: "write_sections env ?secs [] st w = (r2, st2, w2)"
    by (cases "write_sections env ?secs [] st w") auto
  from write_and_compile_guide_events[OF full loop] obtain es where
    es: "events w' = events w2 @ es" "kickoff_log es = []" by blast
  have split: "(r2, st2, w2) =
                 (case r of Inl e \<Rightarrow> (Inl e, st1, w1)
                  | Inr completed \<Rightarrow> write_sections env (drop n ?secs) completed st1 w1)"
    using write_sections_append[of env "take n ?secs" "drop n ?secs" "[]" st w]
    by (simp add: pre loop split: sum.splits)
  obtain rs where rs: "loop_outcome (take n ?secs) [] st w rs (r, st1, w1)"
    using write_sections_run[of "take n ?secs" "[]" st w env] pre by auto
  from rs show ?thesis
  proof (cases rule: loop_outcome_cases)
    case completed
    obtain rs' where "loop_outcome (drop n ?secs) ([] @ map Section.title (take n ?secs)) st1 w1 rs' (r2, st2, w2)"
      using write_sections_run[of "drop n ?secs" "[] @ map Section.title (take n ?secs)" st1 w1 env]
        split completed(2) by auto
    then obtain es' where es': "events w2 = events w1 @ es'"
      by (cases rule: loop_outcome_cases) blast+
    have len: "length (kickoff_log (calls ?a [] ?d (take n ?secs) rs (length rs))) = length rs"
      by (simp add: kickoff_log_calls)
    have n: "length rs = min (length ?secs) n" using completed(1) by simp
    have "take n (kickoff_log (calls ?a [] ?d (take n ?secs) rs (length rs)) @ kickoff_log es')
            = kickoff_log (calls ?a [] ?d (take n ?secs) rs (length rs))
              @ take (n - length rs) (kickoff_log es')"
      using len n by simp
    moreover have "length ?secs < n \<Longrightarrow> es' = []"
    proof -
      assume "length ?secs < n"
      then have "drop n ?secs = []" by simp
      with split completed(2) have "w2 = w1" by simp
      with es' show "es' = []" by simp
    qed
    then have "take (n - length rs) (kickoff_log es') = []"
      using n by (cases "length ?secs < n") (simp_all add: min_def)
    ultimately show ?thesis
      by (simp add: new_kickoffs_def es es' completed(6) kickoff_log_append)
  next
    case (failed msg)
    with split have "w2 = w1" by simp
    moreover have "length (kickoff_log (events w1)) \<le> length (kickoff_log (events w)) + n"
      using failed(1) by (simp add: failed(6) kickoff_log_append kickoff_log_calls)
    ultimately show ?thesis
      by (simp add: new_kickoffs_def es kickoff_log_append)
  qed
qed

subsection \<open>The stored contents\<close>

text \<open>
  Storing replaces the entry of a title that is present, so a title maps to the text of the last section that has it.
\<close>

lemma foldl_append_concat:
  "foldl (\<lambda>text x. text @ f x) acc xs = acc @ concat (map f xs)"
  by (induction xs arbitrary: acc) simp_all

lemma map_take_upt: "i \<le> length xs \<Longrightarrow> map f (take i xs) = map (\<lambda>j. f (xs ! j)) [0..<i]"
  by (simp add: list_eq_iff_nth_eq)

lemma map_of_stored:
  "map_of (stored d secs rs) = map_of d ++ map_of (rev (zip (map Section.title secs) rs))"
proof (induction secs arbitrary: d rs)
  case Nil
  show ?case by simp
next
  case (Cons s secs)
  show ?case
  proof (cases rs)
    case Nil
    then show ?thesis by simp
  next
    case (Cons r rs')
    show ?thesis
      unfolding Cons stored_Cons Cons.IH
      by (simp add: update_conv' map_add_upd_left ext)
  qed
qed

lemma map_of_rev_zip_take:
  "n \<le> length ts \<Longrightarrow> n \<le> length rs \<Longrightarrow>
   map_of (rev (zip (take n ts) rs)) t =
     (if t \<in> set (take n ts) then Some (rs ! last (filter (\<lambda>k. ts ! k = t) [0..<n])) else None)"
proof (induction n)
  case 0
  show ?case by simp
next
  case (Suc n)
  then have n: "n < length ts" "n < length rs" by simp_all
  have z: "zip (take (Suc n) ts) rs = zip (take n ts) rs @ [(ts ! n, rs ! n)]"
  proof (rule nth_equalityI)
    show "length (zip (take (Suc n) ts) rs) = length (zip (take n ts) rs @ [(ts ! n, rs ! n)])"
      using n by simp
  next
    fix i assume "i < length (zip (take (Suc n) ts) rs)"
    then have "i < Suc n" by simp
    then consider "i < n" | "i = n" by linarith
    then show "zip (take (Suc n) ts) rs ! i = (zip (take n ts) rs @ [(ts ! n, rs ! n)]) ! i"
      using n by cases (simp_all add: nth_append)
  qed
  show ?case
    unfolding z using Suc.IH n
    by (simp add: take_Suc_conv_app_nth)
qed

lemma last_with_title_Suc:
  "last_with_title secs (Suc i) t =
     (if Section.title (secs ! i) = t then i else last_with_title secs i t)"
  by (simp add: last_with_title_def)

lemma last_with_title_props:
  "j < i \<Longrightarrow>
     j \<le> last_with_title secs i (Section.title (secs ! j))
   \<and> last_with_title secs i (Section.title (secs ! j)) < i
   \<and> Section.title (secs ! last_with_title secs i (Section.title (secs ! j))) = Section.title (secs ! j)
   \<and> (\<forall>k. last_with_title secs i (Section.title (secs ! j)) < k \<and> k < i
          \<longrightarrow> Section.title (secs ! k) \<noteq> Section.title (secs ! j))"
proof (induction i)
  case 0
  then show ?case by simp
next
  case (Suc i)
  show ?case
  proof (cases "Section.title (secs ! i) = Section.title (secs ! j)")
    case True
    with Suc.prems show ?thesis by (auto simp add: last_with_title_Suc)
  next
    case False
    with Suc.prems have "j < i" by (cases "j = i") simp_all
    from Suc.IH[OF this] False show ?thesis
      by (auto simp add: last_with_title_Suc less_Suc_eq)
  qed
qed

lemma last_with_title_distinct:
  "distinct (map Section.title (take i secs)) \<Longrightarrow> i \<le> length secs \<Longrightarrow> j < i \<Longrightarrow>
   last_with_title secs i (Section.title (secs ! j)) = j"
proof -
  assume d: "distinct (map Section.title (take i secs))" and i: "i \<le> length secs" and j: "j < i"
  let ?l = "last_with_title secs i (Section.title (secs ! j))"
  from last_with_title_props[OF j, of secs] have l: "?l < i"
    "Section.title (secs ! ?l) = Section.title (secs ! j)" by simp_all
  have "map Section.title (take i secs) ! ?l = map Section.title (take i secs) ! j"
    using l j i by simp
  moreover have "?l < length (map Section.title (take i secs))"
    "j < length (map Section.title (take i secs))"
    using l j i by simp_all
  ultimately show ?thesis
    using d nth_eq_iff_index_eq by blast
qed

lemma stored_lookup:
  assumes "i \<le> length secs" "i \<le> length rs" "j < i"
  shows "map_of (stored d (take i secs) rs) (Section.title (secs ! j)) =
           Some (rs ! last_with_title secs i (Section.title (secs ! j)))"
proof -
  let ?ts = "map Section.title secs"
  let ?t = "Section.title (secs ! j)"
  have mem: "?t \<in> set (take i ?ts)"
    using assms by (auto simp add: in_set_conv_nth intro!: exI[of _ j])
  have filt: "filter (\<lambda>k. ?ts ! k = ?t) [0..<i] = filter (\<lambda>k. Section.title (secs ! k) = ?t) [0..<i]"
    using assms(1) by (intro filter_cong) simp_all
  have "map_of (rev (zip (take i ?ts) rs)) ?t = Some (rs ! last_with_title secs i ?t)"
    using map_of_rev_zip_take[of i ?ts rs ?t] assms mem
    by (simp add: filt last_with_title_def)
  then show ?thesis
    by (simp add: map_of_stored take_map map_add_def)
qed

lemma dict_get_stored:
  "i \<le> length secs \<Longrightarrow> i \<le> length rs \<Longrightarrow> j < i \<Longrightarrow>
   dict_get (stored d (take i secs) rs) (Section.title (secs ! j)) dflt =
     rs ! last_with_title secs i (Section.title (secs ! j))"
  by (simp add: dict_get_def stored_lookup)

lemma stored_present:
  assumes "length rs = length secs" "s \<in> set secs"
  shows "map_of (stored d secs rs) (Section.title s) \<noteq> None"
proof -
  from assms(2) obtain j where j: "j < length secs" "s = secs ! j"
    by (auto simp add: in_set_conv_nth)
  have "map_of (stored d (take (length secs) secs) rs) (Section.title (secs ! j)) \<noteq> None"
    using stored_lookup[of "length secs" secs rs j d] assms(1) j(1) by simp
  then show ?thesis using j(2) by simp
qed

lemma keys_stored:
  "fst ` set (stored d secs rs) \<subseteq> fst ` set d \<union> Section.title ` set secs"
proof -
  have "dom (map_of (rev (zip (map Section.title secs) rs))) \<subseteq> Section.title ` set secs"
    by (auto simp add: dom_map_of_conv_image_fst dest: set_zip_leftD)
  then have "dom (map_of (stored d secs rs)) \<subseteq> dom (map_of d) \<union> Section.title ` set secs"
    unfolding map_of_stored by auto
  then show ?thesis
    by (simp only: dom_map_of_conv_image_fst)
qed

lemma write_sections_keys:
  assumes "write_sections env secs completed st w = (r, st1, w1)"
  shows "fst ` set (sections_content st1) \<subseteq> fst ` set (sections_content st) \<union> Section.title ` set secs"
    and "r = Inr c \<Longrightarrow> s \<in> set secs \<Longrightarrow> map_of (sections_content st1) (Section.title s) \<noteq> None"
proof -
  obtain rs where rs: "loop_outcome secs completed st w rs (r, st1, w1)"
    using write_sections_run[of secs completed st w env] assms by auto
  then have st1: "st1 = st\<lparr>sections_content := stored (sections_content st) secs rs\<rparr>"
    unfolding loop_outcome_def Let_def by auto
  show "fst ` set (sections_content st1) \<subseteq> fst ` set (sections_content st) \<union> Section.title ` set secs"
    unfolding st1 using keys_stored by simp
  show "map_of (sections_content st1) (Section.title s) \<noteq> None" if "r = Inr c" "s \<in> set secs"
  proof -
    from rs that(1) have "length rs = length secs"
      unfolding loop_outcome_def Let_def by auto
    from stored_present[OF this that(2)] show ?thesis
      unfolding st1 by simp
  qed
qed

lemma projr_snd_texts:
  "map (projr \<circ> snd) (map (\<lambda>i. (f i, Inr (rs ! i))) [0..<length rs] @ extra) = rs @ map (projr \<circ> snd) extra"
proof -
  have "map (\<lambda>i. rs ! i) [0..<length rs] = rs" by (rule map_nth)
  then show ?thesis by (simp add: comp_def)
qed

subsection \<open>The context and the guide\<close>

lemma previous_sections_text_concat:
  "previous_sections_text completed content =
     (if completed = [] then ''No previous sections written yet.''
      else ''# Previously Written Sections\<newline>\<newline>'' @
           concat (map (\<lambda>t. ''## '' @ t @ ''\<newline>\<newline>'' @ dict_get content t '''' @ ''\<newline>\<newline>'')
                     completed))"
  unfolding previous_sections_text_def foldl_append_concat by simp

lemma previous_sections_call_inputs:
  assumes "i \<le> length rs" "i < length secs"
  shows "previous_sections (call_inputs a [] d secs rs i) =
     (if i = 0 then ''No previous sections written yet.''
      else ''# Previously Written Sections\<newline>\<newline>'' @
           concat (map (\<lambda>j. ''## '' @ Section.title (secs ! j) @ ''\<newline>\<newline>''
                             @ rs ! last_with_title secs i (Section.title (secs ! j)) @ ''\<newline>\<newline>'')
                     [0..<i]))"
proof (cases "i = 0")
  case True
  then show ?thesis
    by (simp add: call_inputs_def previous_sections_text_concat)
next
  case False
  let ?g = "\<lambda>t. ''## '' @ t @ ''\<newline>\<newline>'' @ dict_get (stored d (take i secs) rs) t '''' @ ''\<newline>\<newline>''"
  have ne: "map Section.title (take i secs) \<noteq> []"
    using False assms(2) by (cases secs) simp_all
  have "map ?g (map Section.title (take i secs)) = map (\<lambda>j. ?g (Section.title (secs ! j))) [0..<i]"
    using map_take_upt[of i secs "\<lambda>s. ?g (Section.title s)"] assms(2) by (simp add: comp_def)
  also have "\<dots> = map (\<lambda>j. ''## '' @ Section.title (secs ! j) @ ''\<newline>\<newline>''
                             @ rs ! last_with_title secs i (Section.title (secs ! j)) @ ''\<newline>\<newline>'')
                     [0..<i]"
    using assms by (intro map_cong refl) (simp add: dict_get_stored)
  finally show ?thesis
    using False ne
    by (simp add: call_inputs_def previous_sections_text_concat del: map_map)
qed

lemma guide_content_concat:
  "guide_content outline content =
     ''# '' @ GuideOutline.title outline @ ''\<newline>\<newline>'' @
     ''## Introduction\<newline>\<newline>'' @ introduction outline @ ''\<newline>\<newline>'' @
     concat (map (\<lambda>i. ''\<newline>\<newline>'' @ dict_get content (Section.title (sections outline ! i)) '''' @ ''\<newline>\<newline>'')
               [0..<length (sections outline)]) @
     ''## Conclusion\<newline>\<newline>'' @ conclusion outline @ ''\<newline>\<newline>''"
proof -
  have "map (\<lambda>s. ''\<newline>\<newline>'' @ dict_get content (Section.title s) '''' @ ''\<newline>\<newline>'') (sections outline)
      = map (\<lambda>i. ''\<newline>\<newline>'' @ dict_get content (Section.title (sections outline ! i)) '''' @ ''\<newline>\<newline>'')
               [0..<length (sections outline)]"
    using map_take_upt[of "length (sections outline)" "sections outline"] by simp
  then show ?thesis
    unfolding guide_content_def foldl_append_concat by simp
qed

lemma guide_content_cong:
  "map_of d = map_of d' \<Longrightarrow> guide_content outline d = guide_content outline d'"
  by (simp add: guide_content_def dict_get_def)

lemma completed_run_contents:
  assumes "write_and_compile_guide env outline st w = (Inr msg, st', w')"
  shows "map_of (files w') ''output/complete_guide.md'' =
           Some (guide_content outline (sections_content st'))"
    and "i < length (sections outline) \<Longrightarrow>
           map_of (sections_content st') (Section.title (sections outline ! i)) =
             Some (projr (snd (new_kickoffs w w' !
                     last_with_title (sections outline) (length (sections outline))
                       (Section.title (sections outline ! i)))))"
proof -
  obtain rs where out: "compile_outcome outline st w rs (Inr msg, st', w')"
    using write_and_compile_guide_run[of outline st w env] assms(1) by auto
  note fin = compile_outcome_completed[OF out]
  note new = compile_outcome_new_kickoffs[OF out]
  let ?secs = "sections outline"
  let ?K = "length ?secs"
  show "map_of (files w') ''output/complete_guide.md'' =
          Some (guide_content outline (sections_content st'))"
    by (simp add: fin(3) update_conv')
  show "map_of (sections_content st') (Section.title (?secs ! i)) =
          Some (projr (snd (new_kickoffs w w' ! last_with_title ?secs ?K (Section.title (?secs ! i)))))"
    if i: "i < ?K"
  proof -
    have content: "sections_content st' = stored (sections_content st) (take ?K ?secs) rs"
      by (simp add: fin(2))
    have "map_of (sections_content st') (Section.title (?secs ! i)) =
                  Some (rs ! last_with_title ?secs ?K (Section.title (?secs ! i)))"
      unfolding content using i fin(1) by (intro stored_lookup) simp_all
    moreover have "last_with_title ?secs ?K (Section.title (?secs ! i)) < ?K"
      using last_with_title_props[OF i, of ?secs] by simp
    ultimately show ?thesis
      using fin(1) by (simp add: new(4))
  qed
qed

lemma completed_prefix_run:
  assumes full: "write_and_compile_guide env outline st w = (Inr msg, st', w')"
      and i: "i < length (sections outline)"
  shows "map_of (sections_content (fst (snd (write_sections env (take (Suc i) (sections outline)) [] st w))))
           (Section.title (sections outline ! i)) =
         Some (projr (snd (new_kickoffs w w' ! i)))"
proof -
  let ?secs = "sections outline"
  let ?a = "GuideCreatorState.audience_level st"
  let ?d = "sections_content st"
  obtain r st1 w1 where pre: "write_sections env (take (Suc i) ?secs) [] st w = (r, st1, w1)"
    by (cases "write_sections env (take (Suc i) ?secs) [] st w") auto
  obtain rs where rs: "loop_outcome (take (Suc i) ?secs) [] st w rs (r, st1, w1)"
    using write_sections_run[of "take (Suc i) ?secs" "[]" st w env] pre by auto
  have "\<exists>c. r = Inr c"
  proof (cases r)
    case (Inl e)
    have "write_sections env ?secs [] st w = (Inl e, st1, w1)"
      using write_sections_append[of env "take (Suc i) ?secs" "drop (Suc i) ?secs" "[]" st w]
      by (simp add: pre Inl)
    with full show ?thesis by (simp add: write_and_compile_guide_def)
  qed simp
  with rs have len: "length rs = Suc i"
    and st1: "st1 = st\<lparr>sections_content := stored ?d (take (Suc i) ?secs) rs\<rparr>"
    and ev: "events w1 = events w @ calls ?a [] ?d (take (Suc i) ?secs) rs (length rs)"
    using i by (cases rule: loop_outcome_cases; simp)+
  have "map_of (stored ?d (take (Suc i) ?secs) rs) (Section.title (?secs ! i)) =
          Some (rs ! last_with_title ?secs (Suc i) (Section.title (?secs ! i)))"
    using i len by (intro stored_lookup) simp_all
  then have stored_i: "map_of (sections_content st1) (Section.title (?secs ! i)) = Some (rs ! i)"
    by (simp add: st1 last_with_title_Suc)
  have "new_kickoffs w w1 ! i = new_kickoffs w w' ! i"
    using prefix_run_log[OF full pre] by simp
  moreover have "snd (new_kickoffs w w1 ! i) = Inr (rs ! i)"
    using len by (simp add: new_kickoffs_append[OF ev] kickoff_log_calls nth_append del: upt_Suc)
  ultimately show ?thesis
    using stored_i by (simp add: pre)
qed

lemma compile_keys_invariant:
  assumes "fst ` set (sections_content st) \<subseteq> Section.title ` set (sections outline)"
  shows "(\<forall>n \<le> length (sections outline).
           case write_sections env (take n (sections outline)) [] st w of
             (r, st_n, w_n) \<Rightarrow>
               write_sections env (sections outline) [] st w =
                 (case r of Inl e \<Rightarrow> (Inl e, st_n, w_n)
                  | Inr completed \<Rightarrow> write_sections env (drop n (sections outline)) completed st_n w_n)
             \<and> fst ` set (sections_content st_n) \<subseteq> Section.title ` set (sections outline)
             \<and> (\<forall>completed. r = Inr completed \<longrightarrow>
                   (\<forall>s \<in> set (take n (sections outline)).
                      map_of (sections_content st_n) (Section.title s) \<noteq> None)))
       \<and> (case write_and_compile_guide env outline st w of
             (res, st', w') \<Rightarrow>
               fst ` set (sections_content st') \<subseteq> Section.title ` set (sections outline)
             \<and> ((\<forall>msg. res \<noteq> Inl (CapabilityError msg)) \<longrightarrow>
                   (\<forall>s \<in> set (sections outline).
                      map_of (sections_content st') (Section.title s) \<noteq> None)))"
proof (intro conjI allI impI)
  fix n assume "n \<le> length (sections outline)"
  let ?secs = "sections outline"
  obtain r st_n w_n where run: "write_sections env (take n ?secs) [] st w = (r, st_n, w_n)"
    by (cases "write_sections env (take n ?secs) [] st w") auto
  have split: "write_sections env ?secs [] st w =
                 (case r of Inl e \<Rightarrow> (Inl e, st_n, w_n)
                  | Inr completed \<Rightarrow> write_sections env (drop n ?secs) completed st_n w_n)"
    using write_sections_append[of env "take n ?secs" "drop n ?secs" "[]" st w]
    by (simp add: run split: sum.splits)
  have "set (take n ?secs) \<subseteq> set ?secs" by (rule set_take_subset)
  then have keys: "fst ` set (sections_content st_n) \<subseteq> Section.title ` set ?secs"
    using write_sections_keys(1)[OF run] assms by blast
  have present: "\<forall>completed. r = Inr completed \<longrightarrow>
                   (\<forall>s \<in> set (take n ?secs). map_of (sections_content st_n) (Section.title s) \<noteq> None)"
    using write_sections_keys(2)[OF run] by blast
  show "case write_sections env (take n ?secs) [] st w of
             (r, st_n, w_n) \<Rightarrow>
               write_sections env ?secs [] st w =
                 (case r of Inl e \<Rightarrow> (Inl e, st_n, w_n)
                  | Inr completed \<Rightarrow> write_sections env (drop n ?secs) completed st_n w_n)
             \<and> fst ` set (sections_content st_n) \<subseteq> Section.title ` set ?secs
             \<and> (\<forall>completed. r = Inr completed \<longrightarrow>
                   (\<forall>s \<in> set (take n ?secs).
                      map_of (sections_content st_n) (Section.title s) \<noteq> None))"
    unfolding run using split keys present by simp
next
  let ?secs = "sections outline"
  obtain res st' w' where run: "write_and_compile_guide env outline st w = (res, st', w')"
    by (cases "write_and_compile_guide env outline st w") auto
  obtain rs where out: "compile_outcome outline st w rs (res, st', w')"
    using write_and_compile_guide_run[of outline st w env] run by auto
  note log = compile_outcome_log[OF out]
  have keys: "fst ` set (sections_content st') \<subseteq> Section.title ` set ?secs"
    unfolding log(3) using keys_stored[of "sections_content st" ?secs rs] assms by auto
  have present: "(\<forall>msg. res \<noteq> Inl (CapabilityError msg)) \<longrightarrow>
                   (\<forall>s \<in> set ?secs. map_of (sections_content st') (Section.title s) \<noteq> None)"
  proof (intro impI ballI)
    fix s assume ok: "\<forall>msg. res \<noteq> Inl (CapabilityError msg)" and s: "s \<in> set ?secs"
    from log(4)[OF ok] have "length rs = length ?secs" by simp
    from stored_present[OF this s] show "map_of (sections_content st') (Section.title s) \<noteq> None"
      unfolding log(3) by simp
  qed
  show "case write_and_compile_guide env outline st w of
             (res, st', w') \<Rightarrow>
               fst ` set (sections_content st') \<subseteq> Section.title ` set ?secs
             \<and> ((\<forall>msg. res \<noteq> Inl (CapabilityError msg)) \<longrightarrow>
                   (\<forall>s \<in> set ?secs. map_of (sections_content st') (Section.title s) \<noteq> None))"
    unfolding run using keys present by simp
qed

subsection \<open>The input collector\<close>

lemma audience_loop_eof:
  "stdin w (stdin_pos w) = None \<Longrightarrow> audience_loop st w = Some (Inl EOFError, st, w)"
  by (subst audience_loop.simps) (simp add: input_def)

lemma audience_loop_accept:
  "stdin w (stdin_pos w) = Some line \<Longrightarrow>
   lower line \<in> {''beginner'', ''intermediate'', ''advanced''} \<Longrightarrow>
   audience_loop st w =
     Some (Inr (), st\<lparr>audience_level := lower line\<rparr>, w\<lparr>stdin_pos := Suc (stdin_pos w)\<rparr>)"
  by (subst audience_loop.simps) (auto simp add: input_def Let_def)

lemma audience_loop_reject:
  "stdin w (stdin_pos w) = Some line \<Longrightarrow>
   lower line \<notin> {''beginner'', ''intermediate'', ''advanced''} \<Longrightarrow>
   audience_loop st w = audience_loop st (w\<lparr>stdin_pos := Suc (stdin_pos w)\<rparr>)"
  by (subst audience_loop.simps) (auto simp add: input_def Let_def)

lemma audience_loop_retries:
  "(\<forall>k<n. \<exists>line. stdin w (stdin_pos w + k) = Some line
              \<and> lower line \<notin> {''beginner'', ''intermediate'', ''advanced''}) \<Longrightarrow>
   stdin w (stdin_pos w + n) = Some good \<Longrightarrow>
   lower good \<in> {''beginner'', ''intermediate'', ''advanced''} \<Longrightarrow>
   audience_loop st w =
     Some (Inr (), st\<lparr>audience_level := lower good\<rparr>, w\<lparr>stdin_pos := stdin_pos w + n + 1\<rparr>)"
proof (induction n arbitrary: w)
  case 0
  then show ?case using audience_loop_accept[of w good st] by simp
next
  case (Suc n)
  from Suc.prems(1) obtain line where line: "stdin w (stdin_pos w) = Some line"
    "lower line \<notin> {''beginner'', ''intermediate'', ''advanced''}"
    by (metis add.right_neutral zero_less_Suc)
  let ?w1 = "w\<lparr>stdin_pos := Suc (stdin_pos w)\<rparr>"
  have "\<forall>k<n. \<exists>line. stdin ?w1 (stdin_pos ?w1 + k) = Some line
              \<and> lower line \<notin> {''beginner'', ''intermediate'', ''advanced''}"
  proof (intro allI impI)
    fix k assume "k < n"
    then have "Suc k < Suc n" by simp
    from Suc.prems(1)[rule_format, OF this] show "\<exists>line. stdin ?w1 (stdin_pos ?w1 + k) = Some line
              \<and> lower line \<notin> {''beginner'', ''intermediate'', ''advanced''}"
      by simp
  qed
  moreover have "stdin ?w1 (stdin_pos ?w1 + n) = Some good"
    using Suc.prems(2) by simp
  ultimately have "audience_loop st ?w1 =
     Some (Inr (), st\<lparr>audience_level := lower good\<rparr>, ?w1\<lparr>stdin_pos := stdin_pos ?w1 + n + 1\<rparr>)"
    using Suc.prems(3) by (rule Suc.IH)
  then show ?case
    using audience_loop_reject[OF line, of st] by simp
qed

lemma audience_loop_returns:
  assumes "audience_loop st w = Some out"
  shows "\<exists>k. stdin w (stdin_pos w + k) = None
           \<or> (\<exists>line. stdin w (stdin_pos w + k) = Some line
                 \<and> lower line \<in> {''beginner'', ''intermediate'', ''advanced''})"
proof (rule audience_loop.raw_induct[where P = "\<lambda>st w out. \<exists>k. stdin w (stdin_pos w + k) = None
           \<or> (\<exists>line. stdin w (stdin_pos w + k) = Some line
                 \<and> lower line \<in> {''beginner'', ''intermediate'', ''advanced''})", OF _ assms])
  fix loop :: "GuideCreatorState \<Rightarrow> world \<Rightarrow> ((exn + unit) \<times> GuideCreatorState \<times> world) option"
    and st w out
  assume IH: "\<And>st w out. loop st w = Some out \<Longrightarrow>
            \<exists>k. stdin w (stdin_pos w + k) = None
              \<or> (\<exists>line. stdin w (stdin_pos w + k) = Some line
                    \<and> lower line \<in> {''beginner'', ''intermediate'', ''advanced''})"
    and body: "(case input w of
        Inl e \<Rightarrow> Some (Inl e, st, w)
      | Inr (line, w1) \<Rightarrow>
          (let audience = lower line
           in if audience \<in> set [''beginner'', ''intermediate'', ''advanced'']
              then Some (Inr (), st\<lparr>audience_level := audience\<rparr>, w1)
              else loop st w1)) = Some out"
  show "\<exists>k. stdin w (stdin_pos w + k) = None
           \<or> (\<exists>line. stdin w (stdin_pos w + k) = Some line
                 \<and> lower line \<in> {''beginner'', ''intermediate'', ''advanced''})"
  proof (cases "stdin w (stdin_pos w)")
    case None
    then have "stdin w (stdin_pos w + 0) = None" by simp
    then show ?thesis by blast
  next
    case (Some line)
    show ?thesis
    proof (cases "lower line \<in> {''beginner'', ''intermediate'', ''advanced''}")
      case True
      with Some have "\<exists>line. stdin w (stdin_pos w + 0) = Some line
                 \<and> lower line \<in> {''beginner'', ''intermediate'', ''advanced''}"
        by simp
      then show ?thesis by blast
    next
      case False
      let ?w1 = "w\<lparr>stdin_pos := Suc (stdin_pos w)\<rparr>"
      from body Some False have "loop st ?w1 = Some out"
        by (simp add: input_def Let_def)
      from IH[OF this] obtain k where
        "stdin w (stdin_pos w + Suc k) = None
           \<or> (\<exists>line. stdin w (stdin_pos w + Suc k) = Some line
                 \<and> lower line \<in> {''beginner'', ''intermediate'', ''advanced''})"
        by auto
      then show ?thesis by blast
    qed
  qed
qed

lemma audience_loop_never_returns:
  "(\<forall>k. \<exists>line. stdin w (stdin_pos w + k) = Some line
            \<and> lower line \<notin> {''beginner'', ''intermediate'', ''advanced''}) \<Longrightarrow>
   audience_loop st w = None"
proof (rule ccontr)
  assume bad: "\<forall>k. \<exists>line. stdin w (stdin_pos w + k) = Some line
            \<and> lower line \<notin> {''beginner'', ''intermediate'', ''advanced''}"
    and "audience_loop st w \<noteq> None"
  then obtain out where "audience_loop st w = Some out" by auto
  from audience_loop_returns[OF this] obtain k where
    "stdin w (stdin_pos w + k) = None
       \<or> (\<exists>line. stdin w (stdin_pos w + k) = Some line
             \<and> lower line \<in> {''beginner'', ''intermediate'', ''advanced''})"
    by blast
  with bad[rule_format, of k] show False by auto
qed

lemma audience_loop_result:
  assumes "audience_loop st w = Some out"
  shows "topic (fst (snd out)) = topic st
      \<and> (fst out = Inr () \<longrightarrow>
           GuideCreatorState.audience_level (fst (snd out))
             \<in> {''beginner'', ''intermediate'', ''advanced''})
      \<and> (\<forall>e. fst out = Inl e \<longrightarrow> e = EOFError \<and> fst (snd out) = st)"
proof (rule audience_loop.raw_induct[where P = "\<lambda>st w out. topic (fst (snd out)) = topic st
      \<and> (fst out = Inr () \<longrightarrow>
           GuideCreatorState.audience_level (fst (snd out))
             \<in> {''beginner'', ''intermediate'', ''advanced''})
      \<and> (\<forall>e. fst out = Inl e \<longrightarrow> e = EOFError \<and> fst (snd out) = st)", OF _ assms])
  fix loop :: "GuideCreatorState \<Rightarrow> world \<Rightarrow> ((exn + unit) \<times> GuideCreatorState \<times> world) option"
    and st w out
  assume IH: "\<And>st w out. loop st w = Some out \<Longrightarrow>
        topic (fst (snd out)) = topic st
      \<and> (fst out = Inr () \<longrightarrow>
           GuideCreatorState.audience_level (fst (snd out))
             \<in> {''beginner'', ''intermediate'', ''advanced''})
      \<and> (\<forall>e. fst out = Inl e \<longrightarrow> e = EOFError \<and> fst (snd out) = st)"
    and body: "(case input w of
        Inl e \<Rightarrow> Some (Inl e, st, w)
      | Inr (line, w1) \<Rightarrow>
          (let audience = lower line
           in if audience \<in> set [''beginner'', ''intermediate'', ''advanced'']
              then Some (Inr (), st\<lparr>audience_level := audience\<rparr>, w1)
              else loop st w1)) = Some out"
  show "topic (fst (snd out)) = topic st
      \<and> (fst out = Inr () \<longrightarrow>
           GuideCreatorState.audience_level (fst (snd out))
             \<in> {''beginner'', ''intermediate'', ''advanced''})
      \<and> (\<forall>e. fst out = Inl e \<longrightarrow> e = EOFError \<and> fst (snd out) = st)"
  proof (cases "stdin w (stdin_pos w)")
    case None
    with body show ?thesis by (auto simp add: input_def)
  next
    case (Some line)
    show ?thesis
    proof (cases "lower line \<in> {''beginner'', ''intermediate'', ''advanced''}")
      case True
      with body Some show ?thesis by (auto simp add: input_def Let_def)
    next
      case False
      from body Some False have "loop st (w\<lparr>stdin_pos := Suc (stdin_pos w)\<rparr>) = Some out"
        by (simp add: input_def Let_def)
      from IH[OF this] show ?thesis .
    qed
  qed
qed

lemma audience_loop_keeps:
  assumes "audience_loop st w = Some out"
  shows "sections_content (fst (snd out)) = sections_content st
       \<and> guide_outline (fst (snd out)) = guide_outline st"
proof (rule audience_loop.raw_induct[where P = "\<lambda>st w out.
         sections_content (fst (snd out)) = sections_content st
       \<and> guide_outline (fst (snd out)) = guide_outline st", OF _ assms])
  fix loop :: "GuideCreatorState \<Rightarrow> world \<Rightarrow> ((exn + unit) \<times> GuideCreatorState \<times> world) option"
    and st w out
  assume IH: "\<And>st w out. loop st w = Some out \<Longrightarrow>
         sections_content (fst (snd out)) = sections_content st
       \<and> guide_outline (fst (snd out)) = guide_outline st"
    and body: "(case input w of
        Inl e \<Rightarrow> Some (Inl e, st, w)
      | Inr (line, w1) \<Rightarrow>
          (let audience = lower line
           in if audience \<in> set [''beginner'', ''intermediate'', ''advanced'']
              then Some (Inr (), st\<lparr>audience_level := audience\<rparr>, w1)
              else loop st w1)) = Some out"
  show "sections_content (fst (snd out)) = sections_content st
       \<and> guide_outline (fst (snd out)) = guide_outline st"
  proof (cases "input w")
    case (Inl e)
    with body show ?thesis by auto
  next
    case (Inr lw)
    obtain line w1 where lw: "lw = (line, w1)" by (cases lw)
    show ?thesis
    proof (cases "lower line \<in> set [''beginner'', ''intermediate'', ''advanced'']")
      case True
      with body Inr lw show ?thesis by (auto simp add: Let_def)
    next
      case False
      with body Inr lw have "loop st w1 = Some out" by (simp add: Let_def)
      from IH[OF this] show ?thesis .
    qed
  qed
qed

lemma get_user_input_keeps:
  assumes "get_user_input st w = Some (r, st1, w1)"
  shows "sections_content st1 = sections_content st" and "guide_outline st1 = guide_outline st"
proof -
  from assms consider "st1 = st"
    | line w0 r' where "audience_loop (st\<lparr>topic := line\<rparr>) w0 = Some (r', st1, w1)"
    by (auto simp add: get_user_input_def split: sum.splits option.splits prod.splits)
  then have "sections_content st1 = sections_content st \<and> guide_outline st1 = guide_outline st"
  proof cases
    case 1
    then show ?thesis by simp
  next
    case 2
    from audience_loop_keeps[OF this] show ?thesis by simp
  qed
  then show "sections_content st1 = sections_content st" and "guide_outline st1 = guide_outline st"
    by simp_all
qed

lemma lower_examples:
  "lower ''Beginner'' = ''beginner''" "lower ''expert'' = ''expert''" "lower ''ADVANCED'' = ''advanced''"
  by (simp_all add: lower_def lower_char_def)

subsection \<open>The outline generator\<close>

lemma Section_validate_to_json: "Section_validate (Section_to_json s) = Some s"
  by (simp add: Section_validate_def Section_to_json_def str_field_def)

lemma sections_validate_to_json: "sections_validate (map Section_to_json ss) = Some ss"
  by (induction ss) (simp_all add: Section_validate_to_json)

lemma GuideOutline_init_to_json: "GuideOutline_init (GuideOutline_to_json outline) = Inr outline"
  by (simp add: GuideOutline_init_def GuideOutline_to_json_def str_field_def sections_field_def
        sections_validate_to_json)

lemma str_field_Some:
  "str_field kvs name = Some s \<longleftrightarrow> map_of kvs name = Some (JStr s)"
  by (auto simp add: str_field_def split: option.splits json.splits)

lemma Section_validate_Some:
  "Section_validate j = Some s \<longleftrightarrow>
     (\<exists>kvs. j = JObj kvs
        \<and> map_of kvs ''title'' = Some (JStr (Section.title s))
        \<and> map_of kvs ''description'' = Some (JStr (description s)))"
proof (cases j)
  case (JObj kvs)
  show ?thesis
  proof (cases "str_field kvs ''title''")
    case None
    then have "map_of kvs ''title'' \<noteq> Some (JStr (Section.title s))"
      using str_field_Some[of kvs "''title''" "Section.title s"] by simp
    with None JObj show ?thesis by (simp add: Section_validate_def)
  next
    case t: (Some t)
    show ?thesis
    proof (cases "str_field kvs ''description''")
      case None
      then have "map_of kvs ''description'' \<noteq> Some (JStr (description s))"
        using str_field_Some[of kvs "''description''" "description s"] by simp
      with None t JObj show ?thesis by (simp add: Section_validate_def)
    next
      case d: (Some d)
      from t d have "map_of kvs ''title'' = Some (JStr t)" "map_of kvs ''description'' = Some (JStr d)"
        by (simp_all add: str_field_Some)
      with t d JObj show ?thesis
        by (cases s) (auto simp add: Section_validate_def)
    qed
  qed
qed (simp_all add: Section_validate_def)

lemma sections_validate_all2:
  "sections_validate js = Some ss \<longleftrightarrow> list_all2 (\<lambda>j s. Section_validate j = Some s) js ss"
proof (induction js arbitrary: ss)
  case Nil
  show ?case by auto
next
  case (Cons j js)
  show ?case
  proof (cases ss)
    case Nil
    then show ?thesis by (auto split: option.splits)
  next
    case ss: (Cons s ss')
    show ?thesis
    proof (cases "Section_validate j")
      case None
      with ss show ?thesis by simp
    next
      case (Some s')
      show ?thesis
      proof (cases "sections_validate js")
        case None
        with Cons.IH[of ss'] Some ss show ?thesis by simp
      next
        case rest: (Some ss'')
        with Cons.IH[of ss'] Cons.IH[of ss''] Some ss show ?thesis by auto
      qed
    qed
  qed
qed

lemma sections_validate_Some:
  "sections_validate js = Some ss \<longleftrightarrow>
     list_all2 (\<lambda>j s. \<exists>kvs. j = JObj kvs
        \<and> map_of kvs ''title'' = Some (JStr (Section.title s))
        \<and> map_of kvs ''description'' = Some (JStr (description s))) js ss"
  by (simp add: sections_validate_all2 Section_validate_Some)

lemma GuideOutline_init_Inr:
  "GuideOutline_init d = Inr outline \<longleftrightarrow>
     (\<exists>kvs js. d = JObj kvs
        \<and> map_of kvs ''title'' = Some (JStr (GuideOutline.title outline))
        \<and> map_of kvs ''introduction'' = Some (JStr (introduction outline))
        \<and> map_of kvs ''target_audience'' = Some (JStr (target_audience outline))
        \<and> map_of kvs ''sections'' = Some (JArr js)
        \<and> sections_validate js = Some (sections outline)
        \<and> map_of kvs ''conclusion'' = Some (JStr (conclusion outline)))"
proof (cases d)
  case (JObj kvs)
  have sec: "sections_field kvs = Some ss \<longleftrightarrow>
      (\<exists>js. map_of kvs ''sections'' = Some (JArr js) \<and> sections_validate js = Some ss)" for ss
    by (auto simp add: sections_field_def split: option.splits json.splits)
  show ?thesis
  proof
    assume "GuideOutline_init d = Inr outline"
    with JObj obtain t i a ss c where f:
      "str_field kvs ''title'' = Some t" "str_field kvs ''introduction'' = Some i"
      "str_field kvs ''target_audience'' = Some a" "sections_field kvs = Some ss"
      "str_field kvs ''conclusion'' = Some c"
      and o: "outline = \<lparr>title = t, introduction = i, target_audience = a, sections = ss,
                    conclusion = c\<rparr>"
      by (auto simp add: GuideOutline_init_def split: option.splits)
    from f(4) obtain js where "map_of kvs ''sections'' = Some (JArr js)"
      "sections_validate js = Some ss" using sec by blast
    with f o JObj show "\<exists>kvs js. d = JObj kvs
        \<and> map_of kvs ''title'' = Some (JStr (GuideOutline.title outline))
        \<and> map_of kvs ''introduction'' = Some (JStr (introduction outline))
        \<and> map_of kvs ''target_audience'' = Some (JStr (target_audience outline))
        \<and> map_of kvs ''sections'' = Some (JArr js)
        \<and> sections_validate js = Some (sections outline)
        \<and> map_of kvs ''conclusion'' = Some (JStr (conclusion outline))"
      by (simp add: str_field_Some)
  next
    assume "\<exists>kvs js. d = JObj kvs
        \<and> map_of kvs ''title'' = Some (JStr (GuideOutline.title outline))
        \<and> map_of kvs ''introduction'' = Some (JStr (introduction outline))
        \<and> map_of kvs ''target_audience'' = Some (JStr (target_audience outline))
        \<and> map_of kvs ''sections'' = Some (JArr js)
        \<and> sections_validate js = Some (sections outline)
        \<and> map_of kvs ''conclusion'' = Some (JStr (conclusion outline))"
    with JObj obtain js where
      "str_field kvs ''title'' = Some (GuideOutline.title outline)"
      "str_field kvs ''introduction'' = Some (introduction outline)"
      "str_field kvs ''target_audience'' = Some (target_audience outline)"
      "sections_field kvs = Some (sections outline)"
      "str_field kvs ''conclusion'' = Some (conclusion outline)"
      using sec by (auto simp add: str_field_Some)
    with JObj show "GuideOutline_init d = Inr outline"
      by (simp add: GuideOutline_init_def)
  qed
qed (simp_all add: GuideOutline_init_def)

lemma dirname_outline [simp]: "dirname ''output/guide_outline.json'' = ''output''"
  by (simp add: dirname_def)

lemma create_guide_outline_cases:
  assumes "llm_call env (messages st) = Inr text"
      and "create_guide_outline env st w = (res, st', w')"
  obtains
    (not_json) "json_loads env text = None" "res = Inl JSONDecodeError" "st' = st"
      "files w' = files w" "dirs w' = dirs w"
  | (not_outline) d e where "json_loads env text = Some d" "GuideOutline_init d = Inl e"
      "e = TypeError \<or> e = ValidationError" "res = Inl e" "st' = st"
      "files w' = files w" "dirs w' = dirs w"
  | (not_written) d outline where "json_loads env text = Some d" "GuideOutline_init d = Inr outline"
      "res = Inl OSError" "st' = st\<lparr>guide_outline := Some outline\<rparr>" "files w' = files w"
  | (written) d outline where "json_loads env text = Some d" "GuideOutline_init d = Inr outline"
      "res = Inr outline" "st' = st\<lparr>guide_outline := Some outline\<rparr>"
      "files w' = AList.update ''output/guide_outline.json'' (json_dumps env d) (files w)"
proof (cases "json_loads env text")
  case None
  with assms have "res = Inl JSONDecodeError" "st' = st" "files w' = files w" "dirs w' = dirs w"
    by (auto simp add: create_guide_outline_def log_def Let_def)
  with None show ?thesis by (rule not_json)
next
  case (Some d)
  show ?thesis
  proof (cases "GuideOutline_init d")
    case (Inl e)
    then have e: "e = TypeError \<or> e = ValidationError"
      by (auto simp add: GuideOutline_init_def split: json.splits option.splits)
    from assms Some Inl have "res = Inl e" "st' = st" "files w' = files w" "dirs w' = dirs w"
      by (auto simp add: create_guide_outline_def log_def Let_def)
    with Some Inl e show ?thesis by (rule not_outline)
  next
    case (Inr outline)
    show ?thesis
    proof (cases res)
      case (Inl e)
      with assms Some Inr have "res = Inl OSError" "st' = st\<lparr>guide_outline := Some outline\<rparr>"
        "files w' = files w"
        by (auto simp add: create_guide_outline_def log_def Let_def makedirs_def write_file_def
              split: if_splits)
      with Some Inr show ?thesis by (rule not_written)
    next
      case (Inr outline')
      with assms Some \<open>GuideOutline_init d = Inr outline\<close>
      have "res = Inr outline" "st' = st\<lparr>guide_outline := Some outline\<rparr>"
        "files w' = AList.update ''output/guide_outline.json'' (json_dumps env d) (files w)"
        by (auto simp add: create_guide_outline_def log_def Let_def makedirs_def write_file_def
              split: if_splits)
      with Some \<open>GuideOutline_init d = Inr outline\<close> show ?thesis by (rule written)
    qed
  qed
qed

lemma create_guide_outline_keeps:
  assumes "create_guide_outline env st w = (r, st1, w1)"
  shows "sections_content st1 = sections_content st"
    and "r = Inr outline \<Longrightarrow> guide_outline st1 = Some outline"
    and "guide_outline st1 = guide_outline st \<or> (\<exists>outline. guide_outline st1 = Some outline \<and> st1 = st\<lparr>guide_outline := Some outline\<rparr>)"
  using assms
  by (auto simp add: create_guide_outline_def Let_def split: sum.splits option.splits)

subsection \<open>The flow\<close>

lemma kickoff_keys:
  assumes "kickoff env w = Some (res, st', w')"
  shows "case guide_outline st' of
           None \<Rightarrow> sections_content st' = []
         | Some outline \<Rightarrow>
             fst ` set (sections_content st') \<subseteq> Section.title ` set (sections outline)"
proof -
  from assms obtain r st1 w1 where input: "get_user_input GuideCreatorState_init w = Some (r, st1, w1)"
    by (auto simp add: kickoff_def split: option.splits)
  from get_user_input_keeps[OF input] have st1: "sections_content st1 = []" "guide_outline st1 = None"
    by (simp_all add: GuideCreatorState_init_def)
  show ?thesis
  proof (cases r)
    case (Inl e)
    with assms input have "st' = st1" by (simp add: kickoff_def)
    with st1 show ?thesis by simp
  next
    case (Inr state)
    obtain r2 st2 w2 where outl: "create_guide_outline env st1 w1 = (r2, st2, w2)"
      by (cases "create_guide_outline env st1 w1") auto
    note keeps = create_guide_outline_keeps[OF outl]
    show ?thesis
    proof (cases r2)
      case (Inl e)
      with assms input Inr outl have "st' = st2" by (simp add: kickoff_def)
      with keeps(1) keeps(3) st1 show ?thesis by (auto split: option.splits)
    next
      case (Inr outline)
      with assms input \<open>r = Inr state\<close> outl
      have run: "write_and_compile_guide env outline st2 w2 = (res, st', w')"
        by (simp add: kickoff_def)
      obtain rs where out: "compile_outcome outline st2 w2 rs (res, st', w')"
        using write_and_compile_guide_run[of outline st2 w2 env] run by auto
      from compile_outcome_log(3)[OF out] keeps(2)[OF Inr]
      have "guide_outline st' = Some outline"
        and "sections_content st' = stored (sections_content st2) (sections outline) rs"
        by simp_all
      then show ?thesis
        using keys_stored[of "sections_content st2" "sections outline" rs] keeps(1) st1 by simp
    qed
  qed
qed

subsection \<open>The example runs, evaluated\<close>

lemma demo_run:
  "write_and_compile_guide demo_env demo_outline demo_state demo_world =
    (Inr ''Guide creation completed successfully'',
     demo_state\<lparr>sections_content := [(''Getting Started'', ''## Getting Started: First steps''), (''Tools'', ''## Tools: What to buy'')]\<rparr>,
     demo_world\<lparr>files := [(''output/complete_guide.md'', 
        ''# Home Gardening\<newline>\<newline>## Introduction\<newline>\<newline>Welcome.\<newline>\<newline>\<newline>\<newline>## Getting Started: First steps\<newline>\<newline>\<newline>\<newline>## Tools: What to buy\<newline>\<newline>## Conclusion\<newline>\<newline>Enjoy.\<newline>\<newline>'')],
       events := [
         Kickoff \<lparr>section_title = ''Getting Started'', section_description = ''First steps'', audience_level = ''beginner'',
            previous_sections = ''No previous sections written yet.'', draft_content = ''''\<rparr> (Inr ''## Getting Started: First steps''),
         Kickoff \<lparr>section_title = ''Tools'', section_description = ''What to buy'', audience_level = ''beginner'',
            previous_sections = ''# Previously Written Sections\<newline>\<newline>## Getting Started\<newline>\<newline>## Getting Started: First steps\<newline>\<newline>'', draft_content = ''''\<rparr> (Inr ''## Tools: What to buy''),
         WriteFile ''output/complete_guide.md'' ''# Home Gardening\<newline>\<newline>## Introduction\<newline>\<newline>Welcome.\<newline>\<newline>\<newline>\<newline>## Getting Started: First steps\<newline>\<newline>\<newline>\<newline>## Tools: What to buy\<newline>\<newline>## Conclusion\<newline>\<newline>Enjoy.\<newline>\<newline>'']\<rparr>)"
  by (simp add: write_and_compile_guide_def demo_env_def demo_outline_def demo_state_def demo_world_def
       GuideCreatorState_init_def previous_sections_text_def dict_get_def write_file_def log_def guide_content_def)

lemma demo_new_kickoffs:
  "new_kickoffs demo_world (snd (snd (write_and_compile_guide demo_env demo_outline demo_state demo_world))) =
    [(\<lparr>section_title = ''Getting Started'', section_description = ''First steps'',
        audience_level = ''beginner'',
        previous_sections = ''No previous sections written yet.'', draft_content = ''''\<rparr>,
      Inr ''## Getting Started: First steps''),
     (\<lparr>section_title = ''Tools'', section_description = ''What to buy'',
        audience_level = ''beginner'',
        previous_sections = ''# Previously Written Sections\<newline>\<newline>## Getting Started\<newline>\<newline>## Getting Started: First steps\<newline>\<newline>'',
        draft_content = ''''\<rparr>,
      Inr ''## Tools: What to buy'')]"
  by (simp add: demo_run new_kickoffs_def) (simp add: demo_world_def)

lemma repeated_run:
  "write_and_compile_guide demo_env repeated_outline demo_state demo_world =
    (Inr ''Guide creation completed successfully'',
     demo_state\<lparr>sections_content :=
       [(''Soil'', ''## Soil: Improving it''), (''Tools'', ''## Tools: What to buy'')]\<rparr>,
     demo_world\<lparr>files := [(''output/complete_guide.md'',
        ''# Home Gardening\<newline>\<newline>## Introduction\<newline>\<newline>Welcome.\<newline>\<newline>\<newline>\<newline>## Soil: Improving it\<newline>\<newline>\<newline>\<newline>## Tools: What to buy\<newline>\<newline>\<newline>\<newline>## Soil: Improving it\<newline>\<newline>## Conclusion\<newline>\<newline>Enjoy.\<newline>\<newline>'')],
       events := [
         Kickoff \<lparr>section_title = ''Soil'', section_description = ''Kinds of soil'',
            audience_level = ''beginner'',
            previous_sections = ''No previous sections written yet.'', draft_content = ''''\<rparr>
           (Inr ''## Soil: Kinds of soil''),
         Kickoff \<lparr>section_title = ''Tools'', section_description = ''What to buy'',
            audience_level = ''beginner'',
            previous_sections = ''# Previously Written Sections\<newline>\<newline>## Soil\<newline>\<newline>## Soil: Kinds of soil\<newline>\<newline>'',
            draft_content = ''''\<rparr>
           (Inr ''## Tools: What to buy''),
         Kickoff \<lparr>section_title = ''Soil'', section_description = ''Improving it'',
            audience_level = ''beginner'',
            previous_sections = ''# Previously Written Sections\<newline>\<newline>## Soil\<newline>\<newline>## Soil: Kinds of soil\<newline>\<newline>## Tools\<newline>\<newline>## Tools: What to buy\<newline>\<newline>'',
            draft_content = ''''\<rparr>
           (Inr ''## Soil: Improving it''),
         WriteFile ''output/complete_guide.md''
           ''# Home Gardening\<newline>\<newline>## Introduction\<newline>\<newline>Welcome.\<newline>\<newline>\<newline>\<newline>## Soil: Improving it\<newline>\<newline>\<newline>\<newline>## Tools: What to buy\<newline>\<newline>\<newline>\<newline>## Soil: Improving it\<newline>\<newline>## Conclusion\<newline>\<newline>Enjoy.\<newline>\<newline>'']\<rparr>)"
  by (simp add: write_and_compile_guide_def demo_env_def repeated_outline_def demo_state_def
        demo_world_def GuideCreatorState_init_def previous_sections_text_def dict_get_def
        write_file_def log_def guide_content_def)

lemma repeated_new_kickoffs:
  "map snd (new_kickoffs demo_world
     (snd (snd (write_and_compile_guide demo_env repeated_outline demo_state demo_world)))) =
    [Inr ''## Soil: Kinds of soil'', Inr ''## Tools: What to buy'', Inr ''## Soil: Improving it'']"
  by (simp add: repeated_run new_kickoffs_def) (simp add: demo_world_def)

lemma failing_run:
  "write_and_compile_guide failing_env repeated_outline demo_state demo_world =
    (Inl (CapabilityError ''rate limit exceeded''),
     demo_state\<lparr>sections_content := [(''Soil'', ''## Soil: Kinds of soil'')]\<rparr>,
     demo_world\<lparr>events := [
         Kickoff \<lparr>section_title = ''Soil'', section_description = ''Kinds of soil'',
            audience_level = ''beginner'',
            previous_sections = ''No previous sections written yet.'', draft_content = ''''\<rparr>
           (Inr ''## Soil: Kinds of soil''),
         Kickoff \<lparr>section_title = ''Tools'', section_description = ''What to buy'',
            audience_level = ''beginner'',
            previous_sections = ''# Previously Written Sections\<newline>\<newline>## Soil\<newline>\<newline>## Soil: Kinds of soil\<newline>\<newline>'',
            draft_content = ''''\<rparr>
           (Inl ''rate limit exceeded'')]\<rparr>)"
  by (simp add: write_and_compile_guide_def failing_env_def demo_env_def repeated_outline_def
        demo_state_def demo_world_def GuideCreatorState_init_def previous_sections_text_def
        dict_get_def log_def)

lemma failing_new_kickoffs:
  "new_kickoffs demo_world
     (snd (snd (write_and_compile_guide failing_env repeated_outline demo_state demo_world))) =
    [(\<lparr>section_title = ''Soil'', section_description = ''Kinds of soil'',
        audience_level = ''beginner'',
        previous_sections = ''No previous sections written yet.'', draft_content = ''''\<rparr>,
      Inr ''## Soil: Kinds of soil''),
     (\<lparr>section_title = ''Tools'', section_description = ''What to buy'',
        audience_level = ''beginner'',
        previous_sections = ''# Previously Written Sections\<newline>\<newline>## Soil\<newline>\<newline>## Soil: Kinds of soil\<newline>\<newline>'',
        draft_content = ''''\<rparr>,
      Inl ''rate limit exceeded'')]"
  by (simp add: failing_run new_kickoffs_def) (simp add: demo_world_def)

lemma demo_outline_dict_valid: "GuideOutline_init demo_outline_dict = Inr demo_outline"
  by (simp add: GuideOutline_init_def demo_outline_dict_def demo_outline_def str_field_def
        sections_field_def Section_validate_def)

lemma outline_env_calls:
  "llm_call outline_env (messages demo_state) = Inr demo_response"
  "json_loads outline_env demo_response = Some demo_outline_dict"
  "json_loads outline_env (json_dumps outline_env demo_outline_dict) = Some demo_outline_dict"
  by (simp_all add: outline_env_def demo_env_def)

lemma outline_run:
  "create_guide_outline outline_env demo_state stubborn_world =
     (Inr demo_outline, demo_state\<lparr>guide_outline := Some demo_outline\<rparr>,
      stubborn_world\<lparr>dirs := [''output''],
        files := [(''output/guide_outline.json'', demo_response)],
        events := [LlmCall (messages demo_state) (Inr demo_response),
                   WriteFile ''output/guide_outline.json'' demo_response]\<rparr>)"
  by (simp add: create_guide_outline_def outline_env_calls demo_outline_dict_valid Let_def
        makedirs_def write_file_def log_def)
     (simp add: stubborn_world_def outline_env_def demo_env_def)

lemma chatty_env_calls:
  "llm_call chatty_env (messages demo_state) = Inr ''Sure! Here is your outline:''"
  "json_loads chatty_env ''Sure! Here is your outline:'' = None"
  by (simp_all add: chatty_env_def outline_env_def demo_env_def demo_response_def)

lemma listing_env_calls:
  "llm_call listing_env (messages demo_state) = Inr ''[]''"
  "json_loads listing_env ''[]'' = Some (JArr [])"
  "GuideOutline_init (JArr []) = Inl TypeError"
  by (simp_all add: listing_env_def outline_env_def demo_env_def demo_response_def
        GuideOutline_init_def)

lemma typed_input_run:
  "get_user_input GuideCreatorState_init typed_world =
     Some (Inr demo_state, demo_state, typed_world\<lparr>stdin_pos := 3\<rparr>)"
proof -
  let ?st = "GuideCreatorState_init\<lparr>topic := ''Home Gardening''\<rparr>"
  let ?w1 = "typed_world\<lparr>stdin_pos := Suc 0\<rparr>"
  let ?w2 = "typed_world\<lparr>stdin_pos := Suc (Suc 0)\<rparr>"
  have "audience_loop ?st ?w2 =
          Some (Inr (), ?st\<lparr>audience_level := lower ''Beginner''\<rparr>, ?w2\<lparr>stdin_pos := Suc (stdin_pos ?w2)\<rparr>)"
    by (rule audience_loop_accept) (simp_all add: typed_world_def lower_examples)
  moreover have "audience_loop ?st ?w1 = audience_loop ?st (?w1\<lparr>stdin_pos := Suc (stdin_pos ?w1)\<rparr>)"
    by (rule audience_loop_reject[where line = "''expert''"]) (simp_all add: typed_world_def lower_examples)
  ultimately have "audience_loop ?st ?w1 =
          Some (Inr (), demo_state, typed_world\<lparr>stdin_pos := 3\<rparr>)"
    by (simp add: lower_examples demo_state_def numeral_3_eq_3)
  moreover have "input typed_world = Inr (''Home Gardening'', ?w1)"
    by (simp add: input_def typed_world_def)
  ultimately show ?thesis
    by (simp add: get_user_input_def)
qed

lemma typed_outline_run:
  "create_guide_outline outline_env demo_state (typed_world\<lparr>stdin_pos := 3\<rparr>) =
     (Inr demo_outline, demo_state\<lparr>guide_outline := Some demo_outline\<rparr>, outlined_world)"
proof -
  have env: "llm_call outline_env (messages demo_state) = Inr demo_response"
    "json_loads outline_env demo_response = Some demo_outline_dict"
    "json_dumps outline_env demo_outline_dict = demo_response"
    by (simp_all add: outline_env_def demo_env_def)
  show ?thesis
    by (simp add: create_guide_outline_def env demo_outline_dict_valid Let_def
          makedirs_def write_file_def log_def outlined_world_def)
       (simp add: typed_world_def)
qed

lemma typed_compile_run:
  "write_and_compile_guide outline_env demo_outline
      (demo_state\<lparr>guide_outline := Some demo_outline\<rparr>) outlined_world =
    (Inr ''Guide creation completed successfully'',
     demo_state\<lparr>guide_outline := Some demo_outline,
       sections_content := [(''Getting Started'', ''## Getting Started: First steps''),
                            (''Tools'', ''## Tools: What to buy'')]\<rparr>,
     outlined_world\<lparr>files :=
         [(''output/guide_outline.json'', demo_response),
          (''output/complete_guide.md'',
           ''# Home Gardening\<newline>\<newline>## Introduction\<newline>\<newline>Welcome.\<newline>\<newline>\<newline>\<newline>## Getting Started: First steps\<newline>\<newline>\<newline>\<newline>## Tools: What to buy\<newline>\<newline>## Conclusion\<newline>\<newline>Enjoy.\<newline>\<newline>'')],
       events := events outlined_world @ [
         Kickoff \<lparr>section_title = ''Getting Started'', section_description = ''First steps'',
            audience_level = ''beginner'',
            previous_sections = ''No previous sections written yet.'', draft_content = ''''\<rparr>
           (Inr ''## Getting Started: First steps''),
         Kickoff \<lparr>section_title = ''Tools'', section_description = ''What to buy'',
            audience_level = ''beginner'',
            previous_sections = ''# Previously Written Sections\<newline>\<newline>## Getting Started\<newline>\<newline>## Getting Started: First steps\<newline>\<newline>'',
            draft_content = ''''\<rparr>
           (Inr ''## Tools: What to buy''),
         WriteFile ''output/complete_guide.md''
           ''# Home Gardening\<newline>\<newline>## Introduction\<newline>\<newline>Welcome.\<newline>\<newline>\<newline>\<newline>## Getting Started: First steps\<newline>\<newline>\<newline>\<newline>## Tools: What to buy\<newline>\<newline>## Conclusion\<newline>\<newline>Enjoy.\<newline>\<newline>'']\<rparr>)"
proof -
  have outline: "sections demo_outline =
       [\<lparr>Section.title = ''Getting Started'', description = ''First steps''\<rparr>,
        \<lparr>Section.title = ''Tools'', description = ''What to buy''\<rparr>]"
    "GuideOutline.title demo_outline = ''Home Gardening''"
    "introduction demo_outline = ''Welcome.''" "conclusion demo_outline = ''Enjoy.''"
    by (simp_all add: demo_outline_def)
  have world: "kickoff_log (events outlined_world) = []" "dirs outlined_world = [''output'']"
    "files outlined_world = [(''output/guide_outline.json'', demo_response)]"
    by (simp_all add: outlined_world_def)
  have state: "GuideCreatorState.audience_level demo_state = ''beginner''"
    "sections_content demo_state = []"
    by (simp_all add: demo_state_def GuideCreatorState_init_def)
  have crew: "crew_kickoff outline_env =
      (\<lambda>n inputs. Inr (''## '' @ section_title inputs @ '': '' @ section_description inputs))"
    by (simp add: outline_env_def demo_env_def)
  show ?thesis
    by (simp add: write_and_compile_guide_def outline world state crew kickoff_log_append
          previous_sections_text_def dict_get_def write_file_def log_def guide_content_def)
qed

lemma kickoff_demo:
  "kickoff outline_env typed_world =
     Some (write_and_compile_guide outline_env demo_outline
             (demo_state\<lparr>guide_outline := Some demo_outline\<rparr>) outlined_world)"
  by (simp add: kickoff_def typed_input_run typed_outline_run)

subsection \<open>The claims\<close>

text \<open>
  Claim C1. In a run of the section compiler in which no invocation of the author
  capability raises, the invocations the run adds to the log are exactly as many as the
  outline has sections, and the \<open>i\<close>-th of them receives the title and the
  description of the \<open>i\<close>-th section, the audience level of the state, the context
  rendered from the sections before it and the contents stored for them, and an empty
  draft.
\<close>

theorem author_invoked_once_per_section:
  assumes "write_and_compile_guide env outline st w = (res, st', w')"
      and "\<forall>msg. res \<noteq> Inl (CapabilityError msg)"
  shows "kickoff_log (events w') = kickoff_log (events w) @ new_kickoffs w w'
       \<and> length (new_kickoffs w w') = length (sections outline)
       \<and> (\<forall>i < length (sections outline).
            fst (new_kickoffs w w' ! i) =
              \<lparr>section_title = Section.title (sections outline ! i),
               section_description = description (sections outline ! i),
               audience_level = GuideCreatorState.audience_level st,
               previous_sections =
                 previous_sections_text (map Section.title (take i (sections outline)))
                   (stored (sections_content st) (take i (sections outline))
                      (map (projr \<circ> snd) (new_kickoffs w w'))),
               draft_content = ''''\<rparr>)"
proof -
  obtain rs where out: "compile_outcome outline st w rs (res, st', w')"
    using write_and_compile_guide_run[of outline st w env] assms(1) by auto
  note log = compile_outcome_log[OF out]
  from log(4)[OF assms(2)] have len: "length rs = length (sections outline)"
    and new: "new_kickoffs w w' =
      map (\<lambda>i. (call_inputs (GuideCreatorState.audience_level st) [] (sections_content st)
                   (sections outline) rs i, Inr (rs ! i))) [0..<length rs]"
    by simp_all
  have texts: "map (projr \<circ> snd) (new_kickoffs w w') = rs"
    using projr_snd_texts[of _ rs "[]"] unfolding new by simp
  show ?thesis
  proof (intro conjI allI impI)
    show "kickoff_log (events w') = kickoff_log (events w) @ new_kickoffs w w'"
      by (rule log(2))
    show "length (new_kickoffs w w') = length (sections outline)"
      by (simp add: new len)
    fix i assume "i < length (sections outline)"
    then show "fst (new_kickoffs w w' ! i) =
              \<lparr>section_title = Section.title (sections outline ! i),
               section_description = description (sections outline ! i),
               audience_level = GuideCreatorState.audience_level st,
               previous_sections =
                 previous_sections_text (map Section.title (take i (sections outline)))
                   (stored (sections_content st) (take i (sections outline))
                      (map (projr \<circ> snd) (new_kickoffs w w'))),
               draft_content = ''''\<rparr>"
      unfolding texts by (simp add: new len call_inputs_def)
  qed
qed

theorem author_invoked_once_per_section_witness:
  "fst (write_and_compile_guide demo_env demo_outline demo_state demo_world)
     = Inr ''Guide creation completed successfully''
   \<and> length (sections demo_outline) = 2
   \<and> length (new_kickoffs demo_world
               (snd (snd (write_and_compile_guide demo_env demo_outline demo_state demo_world)))) = 2
   \<and> fst (new_kickoffs demo_world
               (snd (snd (write_and_compile_guide demo_env demo_outline demo_state demo_world))) ! 1)
       = \<lparr>section_title = ''Tools'', section_description = ''What to buy'',
           audience_level = ''beginner'',
           previous_sections =
             previous_sections_text [''Getting Started'']
               [(''Getting Started'', ''## Getting Started: First steps'')],
           draft_content = ''''\<rparr>"
proof -
  let ?new = "new_kickoffs demo_world
               (snd (snd (write_and_compile_guide demo_env demo_outline demo_state demo_world)))"
  let ?run = "write_and_compile_guide demo_env demo_outline demo_state demo_world"
  have run: "?run = (fst ?run, fst (snd ?run), snd (snd ?run))"
    by simp
  have no_failure: "\<forall>msg. fst ?run \<noteq> Inl (CapabilityError msg)"
    by (simp add: demo_run)
  note calls = author_invoked_once_per_section[OF run no_failure]
  have two: "length (sections demo_outline) = 2"
    by (simp add: demo_outline_def)
  have second: "(1::nat) < length (sections demo_outline)"
    by (simp add: demo_outline_def)
  from calls have len: "length ?new = length (sections demo_outline)"
    by blast
  have outline: "sections demo_outline ! 1 = \<lparr>Section.title = ''Tools'', description = ''What to buy''\<rparr>"
    "take 1 (sections demo_outline)
       = [\<lparr>Section.title = ''Getting Started'', description = ''First steps''\<rparr>]"
    by (simp_all add: demo_outline_def)
  have state: "GuideCreatorState.audience_level demo_state = ''beginner''"
    "sections_content demo_state = []"
    by (simp_all add: demo_state_def GuideCreatorState_init_def)
  have texts: "map (projr \<circ> snd) ?new = [''## Getting Started: First steps'', ''## Tools: What to buy'']"
    by (simp add: demo_new_kickoffs)
  from calls[THEN conjunct2, THEN conjunct2, rule_format, OF second]
  have "fst (?new ! 1)
       = \<lparr>section_title = ''Tools'', section_description = ''What to buy'',
           audience_level = ''beginner'',
           previous_sections =
             previous_sections_text [''Getting Started'']
               [(''Getting Started'', ''## Getting Started: First steps'')],
           draft_content = ''''\<rparr>"
    by (simp only: outline state texts) (simp add: stored_def)
  with len two show ?thesis
    by (simp add: demo_run)
qed

text \<open>
  Claim C2. In any run of the section compiler, the context passed to the \<open>i\<close>-th
  invocation of the author (counted from 0) is the sentence
  \<^verbatim>\<open>No previous sections written yet.\<close> for the first section; for a later one it
  is the line \<^verbatim>\<open># Previously Written Sections\<close> followed, for each earlier section in
  outline order, by a heading with its title and the content stored under that title,
  which is the text the author returned for the last earlier section of that title.
\<close>

theorem context_of_each_invocation:
  assumes "write_and_compile_guide env outline st w = (res, st', w')"
      and "i < length (new_kickoffs w w')"
  shows "previous_sections (fst (new_kickoffs w w' ! i)) =
     (if i = 0 then ''No previous sections written yet.''
      else ''# Previously Written Sections\<newline>\<newline>'' @
           concat (map (\<lambda>j. ''## '' @ Section.title (sections outline ! j) @ ''\<newline>\<newline>''
                             @ projr (snd (new_kickoffs w w' !
                                 last_with_title (sections outline) i (Section.title (sections outline ! j))))
                             @ ''\<newline>\<newline>'')
                     [0..<i]))"
proof -
  obtain rs where out: "compile_outcome outline st w rs (res, st', w')"
    using write_and_compile_guide_run[of outline st w env] assms(1) by auto
  note new = compile_outcome_new_kickoffs[OF out]
  have i_rs: "i \<le> length rs"
    using new(5)[of i] assms(2) by (cases "length rs \<le> i") simp_all
  have i_secs: "i < length (sections outline)"
    using new(2) assms(2) by simp
  have texts: "projr (snd (new_kickoffs w w' !
                 last_with_title (sections outline) i (Section.title (sections outline ! j))))
               = rs ! last_with_title (sections outline) i (Section.title (sections outline ! j))"
    if "j < i" for j
  proof -
    have "last_with_title (sections outline) i (Section.title (sections outline ! j)) < i"
      using last_with_title_props[OF that, of "sections outline"] by simp
    with i_rs show ?thesis by (simp add: new(4))
  qed
  have "map (\<lambda>j. ''## '' @ Section.title (sections outline ! j) @ ''\<newline>\<newline>''
                             @ projr (snd (new_kickoffs w w' !
                                 last_with_title (sections outline) i (Section.title (sections outline ! j))))
                             @ ''\<newline>\<newline>'') [0..<i]
      = map (\<lambda>j. ''## '' @ Section.title (sections outline ! j) @ ''\<newline>\<newline>''
                             @ rs ! last_with_title (sections outline) i (Section.title (sections outline ! j))
                             @ ''\<newline>\<newline>'') [0..<i]"
    by (intro map_cong refl) (simp add: texts)
  then show ?thesis
    by (simp only: new(3)[OF assms(2)] previous_sections_call_inputs[OF i_rs i_secs])
qed

theorem context_of_each_invocation_witness:
  "(1::nat) < length (new_kickoffs demo_world
                 (snd (snd (write_and_compile_guide demo_env demo_outline demo_state demo_world))))
   \<and> previous_sections (fst (new_kickoffs demo_world
                 (snd (snd (write_and_compile_guide demo_env demo_outline demo_state demo_world))) ! 1))
       = ''# Previously Written Sections\<newline>\<newline>## Getting Started\<newline>\<newline>## Getting Started: First steps\<newline>\<newline>''
   \<and> previous_sections (fst (new_kickoffs demo_world
                 (snd (snd (write_and_compile_guide demo_env demo_outline demo_state demo_world))) ! 0))
       = ''No previous sections written yet.''"
proof -
  let ?w' = "snd (snd (write_and_compile_guide demo_env demo_outline demo_state demo_world))"
  have run: "write_and_compile_guide demo_env demo_outline demo_state demo_world =
               (fst (write_and_compile_guide demo_env demo_outline demo_state demo_world),
                fst (snd (write_and_compile_guide demo_env demo_outline demo_state demo_world)), ?w')"
    by simp
  have len1: "(1::nat) < length (new_kickoffs demo_world ?w')"
    and len0: "(0::nat) < length (new_kickoffs demo_world ?w')"
    by (simp_all add: demo_new_kickoffs)
  have latest: "last_with_title (sections demo_outline) (Suc 0) ''Getting Started'' = 0"
    by (simp add: last_with_title_def demo_outline_def)
  have texts: "projr (snd (new_kickoffs demo_world ?w' ! 0)) = ''## Getting Started: First steps''"
    by (simp add: demo_new_kickoffs)
  have heading: "Section.title (sections demo_outline ! 0) = ''Getting Started''"
    by (simp add: demo_outline_def)
  have second: "previous_sections (fst (new_kickoffs demo_world ?w' ! 1))
       = ''# Previously Written Sections\<newline>\<newline>## Getting Started\<newline>\<newline>## Getting Started: First steps\<newline>\<newline>''"
    using context_of_each_invocation[OF run len1]
    by (simp add: latest texts heading)
  have first: "previous_sections (fst (new_kickoffs demo_world ?w' ! 0)) = ''No previous sections written yet.''"
    using context_of_each_invocation[OF run len0] by simp
  from len1 second first show ?thesis by blast
qed

text \<open>
  Claim C3. After a completed run the file \<^verbatim>\<open>output/complete_guide.md\<close> holds the
  title heading, the introduction under its heading, then for each section in outline
  order the content stored under its title (the text the author returned for the last
  section of that title, without a heading added; with distinct titles, for the section
  itself), then the conclusion under its heading. The text depends on the content
  mapping only through its lookups, not on the order its entries are stored in.
\<close>

theorem final_document_structure:
  assumes "write_and_compile_guide env outline st w = (Inr msg, st', w')"
  shows "map_of (files w') ''output/complete_guide.md'' =
           Some (''# '' @ GuideOutline.title outline @ ''\<newline>\<newline>'' @
                 ''## Introduction\<newline>\<newline>'' @ introduction outline @ ''\<newline>\<newline>'' @
                 concat (map (\<lambda>i. ''\<newline>\<newline>''
                                  @ the (map_of (sections_content st') (Section.title (sections outline ! i)))
                                  @ ''\<newline>\<newline>'')
                           [0..<length (sections outline)]) @
                 ''## Conclusion\<newline>\<newline>'' @ conclusion outline @ ''\<newline>\<newline>'')
       \<and> (\<forall>i < length (sections outline).
             map_of (sections_content st') (Section.title (sections outline ! i)) =
               Some (projr (snd (new_kickoffs w w' !
                       last_with_title (sections outline) (length (sections outline))
                         (Section.title (sections outline ! i))))))
       \<and> (distinct (map Section.title (sections outline)) \<longrightarrow>
            (\<forall>i < length (sections outline).
               map_of (sections_content st') (Section.title (sections outline ! i)) =
                 Some (projr (snd (new_kickoffs w w' ! i)))))
       \<and> (\<forall>d. map_of d = map_of (sections_content st') \<longrightarrow>
             map_of (files w') ''output/complete_guide.md'' = Some (guide_content outline d))"
proof -
  obtain rs where out: "compile_outcome outline st w rs (Inr msg, st', w')"
    using write_and_compile_guide_run[of outline st w env] assms(1) by auto
  note fin = compile_outcome_completed[OF out]
  note new = compile_outcome_new_kickoffs[OF out]
  let ?secs = "sections outline"
  let ?K = "length ?secs"
  have content: "sections_content st' = stored (sections_content st) (take ?K ?secs) rs"
    by (simp add: fin(2))
  have lookup: "map_of (sections_content st') (Section.title (?secs ! i)) =
                  Some (rs ! last_with_title ?secs ?K (Section.title (?secs ! i)))"
    if "i < ?K" for i
    unfolding content using that fin(1) by (intro stored_lookup) simp_all
  have written: "map_of (files w') ''output/complete_guide.md'' =
                Some (guide_content outline (sections_content st'))"
    by (simp add: fin(3) update_conv')
  have bodies: "map (\<lambda>i. ''\<newline>\<newline>'' @ dict_get (sections_content st') (Section.title (?secs ! i)) ''''
                            @ ''\<newline>\<newline>'') [0..<?K]
              = map (\<lambda>i. ''\<newline>\<newline>'' @ the (map_of (sections_content st') (Section.title (?secs ! i)))
                            @ ''\<newline>\<newline>'') [0..<?K]"
    by (intro map_cong refl) (simp add: dict_get_def lookup)
  show ?thesis
  proof (intro conjI allI impI)
    show "map_of (files w') ''output/complete_guide.md'' =
           Some (''# '' @ GuideOutline.title outline @ ''\<newline>\<newline>'' @
                 ''## Introduction\<newline>\<newline>'' @ introduction outline @ ''\<newline>\<newline>'' @
                 concat (map (\<lambda>i. ''\<newline>\<newline>''
                                  @ the (map_of (sections_content st') (Section.title (?secs ! i)))
                                  @ ''\<newline>\<newline>'')
                           [0..<?K]) @
                 ''## Conclusion\<newline>\<newline>'' @ conclusion outline @ ''\<newline>\<newline>'')"
      by (simp only: written guide_content_concat bodies)
  next
    fix i assume i: "i < ?K"
    have "last_with_title ?secs ?K (Section.title (?secs ! i)) < ?K"
      using last_with_title_props[OF i, of ?secs] by simp
    then show "map_of (sections_content st') (Section.title (?secs ! i)) =
               Some (projr (snd (new_kickoffs w w' ! last_with_title ?secs ?K (Section.title (?secs ! i)))))"
      using lookup[OF i] fin(1) by (simp add: new(4))
  next
    fix i assume d: "distinct (map Section.title ?secs)" and i: "i < ?K"
    have "last_with_title ?secs ?K (Section.title (?secs ! i)) = i"
      using d i by (intro last_with_title_distinct) simp_all
    then show "map_of (sections_content st') (Section.title (?secs ! i)) =
               Some (projr (snd (new_kickoffs w w' ! i)))"
      using lookup[OF i] fin(1) i by (simp add: new(4))
  next
    fix d assume "map_of d = map_of (sections_content st')"
    then show "map_of (files w') ''output/complete_guide.md'' = Some (guide_content outline d)"
      using written guide_content_cong[of d "sections_content st'" outline] by simp
  qed
qed

theorem final_document_structure_witness:
  "fst (write_and_compile_guide demo_env demo_outline demo_state demo_world)
     = Inr ''Guide creation completed successfully''
   \<and> map_of (files (snd (snd (write_and_compile_guide demo_env demo_outline demo_state demo_world))))
        ''output/complete_guide.md''
     = Some (guide_content demo_outline
              [(''Tools'', ''## Tools: What to buy''),
               (''Getting Started'', ''## Getting Started: First steps'')])
   \<and> guide_content demo_outline
         [(''Tools'', ''## Tools: What to buy''),
          (''Getting Started'', ''## Getting Started: First steps'')]
     = ''# Home Gardening\<newline>\<newline>## Introduction\<newline>\<newline>Welcome.\<newline>\<newline>\<newline>\<newline>## Getting Started: First steps\<newline>\<newline>\<newline>\<newline>## Tools: What to buy\<newline>\<newline>## Conclusion\<newline>\<newline>Enjoy.\<newline>\<newline>''
   \<and> (1::nat) < length (sections demo_outline)
   \<and> map_of (sections_content
         (fst (snd (write_and_compile_guide demo_env demo_outline demo_state demo_world)))) ''Tools''
     = Some ''## Tools: What to buy''
   \<and> distinct (map Section.title (sections demo_outline))
   \<and> map_of (sections_content
         (fst (snd (write_and_compile_guide demo_env demo_outline demo_state demo_world)))) ''Tools''
     = Some (projr (snd (new_kickoffs demo_world
         (snd (snd (write_and_compile_guide demo_env demo_outline demo_state demo_world))) ! 1)))"
proof -
  let ?run = "write_and_compile_guide demo_env demo_outline demo_state demo_world"
  let ?d = "[(''Tools'', ''## Tools: What to buy''),
             (''Getting Started'', ''## Getting Started: First steps'')]"
  have run: "?run = (Inr ''Guide creation completed successfully'', fst (snd ?run), snd (snd ?run))"
    by (simp add: demo_run)
  note doc = final_document_structure[OF run]
  have same: "map_of ?d = map_of (sections_content (fst (snd ?run)))"
    by (rule ext) (simp add: demo_run)
  have rendered: "guide_content demo_outline ?d
     = ''# Home Gardening\<newline>\<newline>## Introduction\<newline>\<newline>Welcome.\<newline>\<newline>\<newline>\<newline>## Getting Started: First steps\<newline>\<newline>\<newline>\<newline>## Tools: What to buy\<newline>\<newline>## Conclusion\<newline>\<newline>Enjoy.\<newline>\<newline>''"
    by (simp add: guide_content_def demo_outline_def dict_get_def)
  have second: "(1::nat) < length (sections demo_outline)"
    by (simp add: demo_outline_def)
  have tools: "Section.title (sections demo_outline ! 1) = ''Tools''"
    by (simp add: demo_outline_def)
  have latest: "last_with_title (sections demo_outline) (length (sections demo_outline)) ''Tools'' = 1"
    by (simp add: last_with_title_def demo_outline_def upt_rec)
  have returned: "projr (snd (new_kickoffs demo_world (snd (snd ?run)) ! 1)) = ''## Tools: What to buy''"
    by (simp add: demo_new_kickoffs)
  from doc[THEN conjunct2, THEN conjunct1, rule_format, OF second]
  have stored: "map_of (sections_content (fst (snd ?run))) ''Tools'' = Some ''## Tools: What to buy''"
    by (simp only: tools latest returned)
  have different: "distinct (map Section.title (sections demo_outline))"
    by (simp add: demo_outline_def)
  from doc[THEN conjunct2, THEN conjunct2, THEN conjunct1, rule_format, OF different second]
  have own: "map_of (sections_content (fst (snd ?run))) ''Tools''
      = Some (projr (snd (new_kickoffs demo_world (snd (snd ?run)) ! 1)))"
    by (simp only: tools)
  from doc[THEN conjunct2, THEN conjunct2, THEN conjunct2, rule_format, OF same]
  have written: "map_of (files (snd (snd ?run))) ''output/complete_guide.md''
          = Some (guide_content demo_outline ?d)" .
  have completed: "fst ?run = Inr ''Guide creation completed successfully''"
    by (simp add: demo_run)
  from completed written rendered second stored different own show ?thesis
    by blast
qed

text \<open>
  Claim C4. Starting from a state whose content keys are section titles of the outline
  (the initial state has none), the state after every number of iterations of the loop,
  through which the whole loop passes, has only section titles as keys and holds a content
  for each section processed so far; so when the loop has finished, every title the
  compile step looks up is present. At the end of the flow, however it ends, the state
  has no contents when it has no outline, and otherwise only titles of its outline as
  keys.
\<close>

theorem sections_content_keys_invariant:
  "(fst ` set (sections_content st) \<subseteq> Section.title ` set (sections outline) \<longrightarrow>
      (\<forall>n \<le> length (sections outline).
           case write_sections env (take n (sections outline)) [] st w of
             (r, st_n, w_n) \<Rightarrow>
               write_sections env (sections outline) [] st w =
                 (case r of Inl e \<Rightarrow> (Inl e, st_n, w_n)
                  | Inr completed \<Rightarrow> write_sections env (drop n (sections outline)) completed st_n w_n)
             \<and> fst ` set (sections_content st_n) \<subseteq> Section.title ` set (sections outline)
             \<and> (\<forall>completed. r = Inr completed \<longrightarrow>
                   (\<forall>s \<in> set (take n (sections outline)).
                      map_of (sections_content st_n) (Section.title s) \<noteq> None)))
       \<and> (case write_and_compile_guide env outline st w of
             (res, st', w') \<Rightarrow>
               fst ` set (sections_content st') \<subseteq> Section.title ` set (sections outline)
             \<and> ((\<forall>msg. res \<noteq> Inl (CapabilityError msg)) \<longrightarrow>
                   (\<forall>s \<in> set (sections outline).
                      map_of (sections_content st') (Section.title s) \<noteq> None))))
   \<and> (\<forall>res st' w'. kickoff env w0 = Some (res, st', w') \<longrightarrow>
         (case guide_outline st' of
            None \<Rightarrow> sections_content st' = []
          | Some generated \<Rightarrow>
              fst ` set (sections_content st') \<subseteq> Section.title ` set (sections generated)))"
proof (rule conjI)
  show "fst ` set (sections_content st) \<subseteq> Section.title ` set (sections outline) \<longrightarrow>
      (\<forall>n \<le> length (sections outline).
           case write_sections env (take n (sections outline)) [] st w of
             (r, st_n, w_n) \<Rightarrow>
               write_sections env (sections outline) [] st w =
                 (case r of Inl e \<Rightarrow> (Inl e, st_n, w_n)
                  | Inr completed \<Rightarrow> write_sections env (drop n (sections outline)) completed st_n w_n)
             \<and> fst ` set (sections_content st_n) \<subseteq> Section.title ` set (sections outline)
             \<and> (\<forall>completed. r = Inr completed \<longrightarrow>
                   (\<forall>s \<in> set (take n (sections outline)).
                      map_of (sections_content st_n) (Section.title s) \<noteq> None)))
       \<and> (case write_and_compile_guide env outline st w of
             (res, st', w') \<Rightarrow>
               fst ` set (sections_content st') \<subseteq> Section.title ` set (sections outline)
             \<and> ((\<forall>msg. res \<noteq> Inl (CapabilityError msg)) \<longrightarrow>
                   (\<forall>s \<in> set (sections outline).
                      map_of (sections_content st') (Section.title s) \<noteq> None)))"
    by (rule impI) (rule compile_keys_invariant)
next
  show "\<forall>res st' w'. kickoff env w0 = Some (res, st', w') \<longrightarrow>
         (case guide_outline st' of
            None \<Rightarrow> sections_content st' = []
          | Some generated \<Rightarrow>
              fst ` set (sections_content st') \<subseteq> Section.title ` set (sections generated))"
    by (intro allI impI) (rule kickoff_keys)
qed

theorem sections_content_keys_invariant_witness:
  "fst ` set (sections_content demo_state) \<subseteq> Section.title ` set (sections demo_outline)
   \<and> (1::nat) \<le> length (sections demo_outline)
   \<and> fst ` set (sections_content
          (fst (snd (write_sections demo_env (take 1 (sections demo_outline)) [] demo_state demo_world))))
        \<subseteq> Section.title ` set (sections demo_outline)
   \<and> fst (write_and_compile_guide demo_env demo_outline demo_state demo_world)
        = Inr ''Guide creation completed successfully''
   \<and> map_of (sections_content
                (fst (snd (write_and_compile_guide demo_env demo_outline demo_state demo_world))))
         ''Getting Started'' \<noteq> None
   \<and> map_of (sections_content
                (fst (snd (write_and_compile_guide demo_env demo_outline demo_state demo_world))))
         ''Tools'' \<noteq> None
   \<and> (\<exists>res st' w'. kickoff outline_env typed_world = Some (res, st', w')
         \<and> guide_outline st' = Some demo_outline
         \<and> fst ` set (sections_content st') \<subseteq> Section.title ` set (sections demo_outline))"
proof -
  have keys: "fst ` set (sections_content demo_state) \<subseteq> Section.title ` set (sections demo_outline)"
    by (simp add: demo_state_def GuideCreatorState_init_def)
  have one: "(1::nat) \<le> length (sections demo_outline)"
    by (simp add: demo_outline_def)
  have completed: "fst (write_and_compile_guide demo_env demo_outline demo_state demo_world)
        = Inr ''Guide creation completed successfully''"
    by (simp add: demo_run)
  then have ok: "\<forall>msg. fst (write_and_compile_guide demo_env demo_outline demo_state demo_world)
               \<noteq> Inl (CapabilityError msg)"
    by simp
  note inv = sections_content_keys_invariant[where st = demo_state and outline = demo_outline
               and env = demo_env and w = demo_world, THEN conjunct1, rule_format, OF keys]
  note flow = sections_content_keys_invariant[where env = outline_env and ?w0.0 = typed_world,
               THEN conjunct2, rule_format]
  from inv one have prefix:
    "fst ` set (sections_content
          (fst (snd (write_sections demo_env (take 1 (sections demo_outline)) [] demo_state demo_world))))
        \<subseteq> Section.title ` set (sections demo_outline)"
    by (auto simp add: case_prod_unfold)
  from inv ok have present:
    "\<forall>s \<in> set (sections demo_outline).
         map_of (sections_content
                   (fst (snd (write_and_compile_guide demo_env demo_outline demo_state demo_world))))
           (Section.title s) \<noteq> None"
    by (simp add: case_prod_unfold)
  have "\<lparr>Section.title = ''Getting Started'', description = ''First steps''\<rparr>
          \<in> set (sections demo_outline)"
    and "\<lparr>Section.title = ''Tools'', description = ''What to buy''\<rparr> \<in> set (sections demo_outline)"
    by (simp_all add: demo_outline_def)
  from present[rule_format, OF this(1)] present[rule_format, OF this(2)]
  have stored: "map_of (sections_content
                (fst (snd (write_and_compile_guide demo_env demo_outline demo_state demo_world))))
         ''Getting Started'' \<noteq> None"
     "map_of (sections_content
                (fst (snd (write_and_compile_guide demo_env demo_outline demo_state demo_world))))
         ''Tools'' \<noteq> None"
    by simp_all
  let ?final = "demo_state\<lparr>guide_outline := Some demo_outline,
       sections_content := [(''Getting Started'', ''## Getting Started: First steps''),
                            (''Tools'', ''## Tools: What to buy'')]\<rparr>"
  obtain w' where run: "kickoff outline_env typed_world =
      Some (Inr ''Guide creation completed successfully'', ?final, w')"
    by (simp add: kickoff_demo typed_compile_run)
  from flow[OF run] have "fst ` set (sections_content ?final) \<subseteq> Section.title ` set (sections demo_outline)"
    by simp
  with run have "\<exists>res st' w'. kickoff outline_env typed_world = Some (res, st', w')
         \<and> guide_outline st' = Some demo_outline
         \<and> fst ` set (sections_content st') \<subseteq> Section.title ` set (sections demo_outline)"
    by (intro exI[of _ "Inr ''Guide creation completed successfully''"] exI[of _ ?final] exI[of _ w']) simp
  with keys one prefix completed stored show ?thesis
    by blast
qed

text \<open>
  Claim C5. If an invocation of the author raises, the run ends with that exception, that
  invocation is the last one, and no file is written or changed. A run that writes at all
  writes once, as its last action, after one successful invocation per section.
\<close>

theorem author_failure_leaves_no_document:
  assumes "write_and_compile_guide env outline st w = (res, st', w')"
  shows "(\<forall>n msg. n < length (new_kickoffs w w') \<and> snd (new_kickoffs w w' ! n) = Inl msg \<longrightarrow>
            res = Inl (CapabilityError msg)
          \<and> n < length (sections outline)
          \<and> length (new_kickoffs w w') = Suc n
          \<and> files w' = files w \<and> dirs w' = dirs w
          \<and> write_log (new_events w w') = [])
       \<and> (write_log (new_events w w') \<noteq> [] \<longrightarrow>
            res = Inr ''Guide creation completed successfully''
          \<and> length (new_kickoffs w w') = length (sections outline)
          \<and> (\<forall>c \<in> set (new_kickoffs w w'). \<not> isl (snd c))
          \<and> new_events w w' =
              map (\<lambda>(inputs, result). Kickoff inputs result) (new_kickoffs w w')
              @ [WriteFile ''output/complete_guide.md'' (guide_content outline (sections_content st'))])
       \<and> (files w' \<noteq> files w \<longrightarrow> write_log (new_events w w') \<noteq> [])"
proof -
  obtain rs where out: "compile_outcome outline st w rs (res, st', w')"
    using write_and_compile_guide_run[of outline st w env] assms(1) by auto
  note new = compile_outcome_new_kickoffs[OF out]
  have failing: "res = Inl (CapabilityError msg) \<and> n < length (sections outline)
          \<and> length (new_kickoffs w w') = Suc n
          \<and> files w' = files w \<and> dirs w' = dirs w \<and> write_log (new_events w w') = []"
    if n: "n < length (new_kickoffs w w')" and msg: "snd (new_kickoffs w w' ! n) = Inl msg" for n msg
  proof -
    have "\<not> n < length rs" using new(4)[of n] msg by auto
    then have "length rs \<le> n" by simp
    from new(5)[OF this n] msg have n_eq: "n = length rs" and res: "res = Inl (CapabilityError msg)"
      by auto
    from out res show ?thesis
    proof (cases rule: compile_outcome_cases)
      case (failed m)
      then show ?thesis
        using res n_eq
        by (simp add: new_kickoffs_append[OF failed(6)] new_events_append[OF failed(6)]
              kickoff_log_append kickoff_log_calls write_log_append write_log_calls)
    qed simp_all
  qed
  have writing: "res = Inr ''Guide creation completed successfully''
          \<and> length (new_kickoffs w w') = length (sections outline)
          \<and> (\<forall>c \<in> set (new_kickoffs w w'). \<not> isl (snd c))
          \<and> new_events w w' =
              map (\<lambda>(inputs, result). Kickoff inputs result) (new_kickoffs w w')
              @ [WriteFile ''output/complete_guide.md'' (guide_content outline (sections_content st'))]"
    if "write_log (new_events w w') \<noteq> []"
    using out
  proof (cases rule: compile_outcome_cases)
    case written
    show ?thesis
      using written(1,2) isl_kickoff_log_calls
      by (simp add: new_kickoffs_append[OF written(6)] new_events_append[OF written(6)]
             kickoff_log_append Kickoff_kickoff_log_calls)
         (simp add: kickoff_log_calls)
  next
    case oserror
    with that show ?thesis
      by (simp add: new_events_append[OF oserror(6)] write_log_calls)
  next
    case (failed m)
    with that show ?thesis
      by (simp add: new_events_append[OF failed(6)] write_log_append write_log_calls)
  qed
  have unchanged: "write_log (new_events w w') \<noteq> []" if "files w' \<noteq> files w"
    using out
  proof (cases rule: compile_outcome_cases)
    case written
    show ?thesis
      by (simp add: new_events_append[OF written(6)] write_log_append)
  qed (use that in simp_all)
  from failing writing unchanged show ?thesis by blast
qed

theorem author_failure_leaves_no_document_witness:
  "(1::nat) < length (new_kickoffs demo_world
       (snd (snd (write_and_compile_guide failing_env repeated_outline demo_state demo_world))))
   \<and> snd (new_kickoffs demo_world
       (snd (snd (write_and_compile_guide failing_env repeated_outline demo_state demo_world))) ! 1)
       = Inl ''rate limit exceeded''
   \<and> fst (write_and_compile_guide failing_env repeated_outline demo_state demo_world)
       = Inl (CapabilityError ''rate limit exceeded'')
   \<and> files (snd (snd (write_and_compile_guide failing_env repeated_outline demo_state demo_world)))
       = files demo_world
   \<and> write_log (new_events demo_world
       (snd (snd (write_and_compile_guide failing_env repeated_outline demo_state demo_world)))) = []
   \<and> files (snd (snd (write_and_compile_guide demo_env demo_outline demo_state demo_world)))
       \<noteq> files demo_world
   \<and> write_log (new_events demo_world
       (snd (snd (write_and_compile_guide demo_env demo_outline demo_state demo_world)))) \<noteq> []
   \<and> length (new_kickoffs demo_world
       (snd (snd (write_and_compile_guide demo_env demo_outline demo_state demo_world))))
       = length (sections demo_outline)"
proof -
  let ?failed = "write_and_compile_guide failing_env repeated_outline demo_state demo_world"
  let ?written = "write_and_compile_guide demo_env demo_outline demo_state demo_world"
  have failed: "?failed = (fst ?failed, fst (snd ?failed), snd (snd ?failed))" by simp
  have written: "?written = (fst ?written, fst (snd ?written), snd (snd ?written))" by simp
  have call: "(1::nat) < length (new_kickoffs demo_world (snd (snd ?failed)))"
    "snd (new_kickoffs demo_world (snd (snd ?failed)) ! 1) = Inl ''rate limit exceeded''"
    by (simp_all add: failing_new_kickoffs)
  have changed: "files (snd (snd ?written)) \<noteq> files demo_world"
    by (simp add: demo_run) (simp add: demo_world_def)
  from author_failure_leaves_no_document[OF failed] call
  have "fst ?failed = Inl (CapabilityError ''rate limit exceeded'')
      \<and> files (snd (snd ?failed)) = files demo_world
      \<and> write_log (new_events demo_world (snd (snd ?failed))) = []"
    by blast
  moreover from author_failure_leaves_no_document[OF written] changed
  have "write_log (new_events demo_world (snd (snd ?written))) \<noteq> []
      \<and> length (new_kickoffs demo_world (snd (snd ?written))) = length (sections demo_outline)"
    by blast
  ultimately show ?thesis
    using call changed by blast
qed

text \<open>
  Claim C6. Validating the JSON object of an outline gives the outline back, in all five
  fields. In the code the file \<^verbatim>\<open>output/guide_outline.json\<close> holds the dump of the
  object the outline was validated from; when the \<^verbatim>\<open>json\<close> library reads that
  object back from its own dump, reparsing the file gives the outline of the state.
\<close>

theorem outline_json_round_trip:
  "GuideOutline_init (GuideOutline_to_json outline) = Inr outline
   \<and> (\<forall>response d parsed st' w'.
         llm_call env (messages st) = Inr response
         \<and> json_loads env response = Some d
         \<and> json_loads env (json_dumps env d) = Some d
         \<and> create_guide_outline env st w = (Inr parsed, st', w') \<longrightarrow>
         guide_outline st' = Some parsed
         \<and> (\<exists>written reparsed.
               map_of (files w') ''output/guide_outline.json'' = Some written
               \<and> json_loads env written = Some reparsed
               \<and> GuideOutline_init reparsed = Inr parsed))"
proof (intro conjI allI impI)
  show "GuideOutline_init (GuideOutline_to_json outline) = Inr outline"
    by (rule GuideOutline_init_to_json)
next
  fix response d parsed st' w'
  assume a: "llm_call env (messages st) = Inr response
         \<and> json_loads env response = Some d
         \<and> json_loads env (json_dumps env d) = Some d
         \<and> create_guide_outline env st w = (Inr parsed, st', w')"
  then have llm: "llm_call env (messages st) = Inr response"
    and run: "create_guide_outline env st w = (Inr parsed, st', w')"
    and d: "json_loads env response = Some d" "json_loads env (json_dumps env d) = Some d"
    by simp_all
  from llm run have fin: "guide_outline st' = Some parsed
      \<and> map_of (files w') ''output/guide_outline.json'' = Some (json_dumps env d)
      \<and> GuideOutline_init d = Inr parsed"
  proof (cases rule: create_guide_outline_cases)
    case (written d' outline')
    with d show ?thesis by (simp add: update_conv')
  qed simp_all
  then show "guide_outline st' = Some parsed" by simp
  from fin d(2) show "\<exists>written reparsed.
               map_of (files w') ''output/guide_outline.json'' = Some written
               \<and> json_loads env written = Some reparsed
               \<and> GuideOutline_init reparsed = Inr parsed"
    by blast
qed

theorem outline_json_round_trip_witness:
  "llm_call outline_env (messages demo_state) = Inr demo_response
   \<and> json_loads outline_env demo_response = Some demo_outline_dict
   \<and> json_loads outline_env (json_dumps outline_env demo_outline_dict) = Some demo_outline_dict
   \<and> fst (create_guide_outline outline_env demo_state stubborn_world) = Inr demo_outline
   \<and> guide_outline (fst (snd (create_guide_outline outline_env demo_state stubborn_world)))
       = Some demo_outline
   \<and> (\<exists>written reparsed.
         map_of (files (snd (snd (create_guide_outline outline_env demo_state stubborn_world))))
           ''output/guide_outline.json'' = Some written
         \<and> json_loads outline_env written = Some reparsed
         \<and> GuideOutline_init reparsed = Inr demo_outline)"
proof -
  let ?run = "create_guide_outline outline_env demo_state stubborn_world"
  have run: "?run = (Inr demo_outline, fst (snd ?run), snd (snd ?run))"
    by (simp add: outline_run)
  from outline_json_round_trip[of demo_outline outline_env demo_state stubborn_world,
         THEN conjunct2, rule_format, of demo_response demo_outline_dict demo_outline
           "fst (snd ?run)" "snd (snd ?run)"]
       outline_env_calls run
  have "guide_outline (fst (snd ?run)) = Some demo_outline
     \<and> (\<exists>written reparsed.
         map_of (files (snd (snd ?run))) ''output/guide_outline.json'' = Some written
         \<and> json_loads outline_env written = Some reparsed
         \<and> GuideOutline_init reparsed = Inr demo_outline)"
    by blast
  moreover have "fst ?run = Inr demo_outline" by (simp add: outline_run)
  ultimately show ?thesis using outline_env_calls by blast
qed

lemma create_guide_outline_schema:
  assumes "llm_call env (messages st) = Inr response"
      and "create_guide_outline env st w = (res, st', w')"
  shows "((res = Inl JSONDecodeError \<or> res = Inl TypeError \<or> res = Inl ValidationError)
           \<longleftrightarrow> (json_loads env response = None
                \<or> (\<exists>d. json_loads env response = Some d \<and> (\<forall>outline. GuideOutline_init d \<noteq> Inr outline))))
       \<and> (res = Inl JSONDecodeError \<or> res = Inl TypeError \<or> res = Inl ValidationError
            \<longrightarrow> st' = st \<and> files w' = files w \<and> dirs w' = dirs w)
       \<and> (\<forall>d outline. json_loads env response = Some d \<and> GuideOutline_init d = Inr outline
            \<longrightarrow> guide_outline st' = Some outline \<and> (res = Inr outline \<or> res = Inl OSError))
       \<and> (\<forall>outline. res = Inr outline \<longrightarrow>
             (\<exists>d. json_loads env response = Some d \<and> GuideOutline_init d = Inr outline)
             \<and> guide_outline st' = Some outline)
       \<and> (\<forall>outline. GuideOutline_init (GuideOutline_to_json outline) = Inr outline)"
  using assms
proof (cases rule: create_guide_outline_cases)
  case not_json
  then show ?thesis by (simp add: GuideOutline_init_to_json)
next
  case (not_outline d e)
  then show ?thesis by (auto simp add: GuideOutline_init_to_json)
next
  case (not_written d outline)
  then show ?thesis by (simp add: GuideOutline_init_to_json)
next
  case (written d outline)
  then show ?thesis by (simp add: GuideOutline_init_to_json)
qed

text \<open>
  Claim C7. When the model has returned a text, the outline generator ends with
  \<^verbatim>\<open>JSONDecodeError\<close>, \<^verbatim>\<open>TypeError\<close> or \<^verbatim>\<open>ValidationError\<close> exactly when
  the text is no JSON or its value does not validate as an outline, and then the state
  holds no outline and nothing is written. A value that validates is stored as it is,
  whatever the number of its sections, and validation accepts the JSON object of every
  outline. A value validates exactly when it is an object that has the four text fields
  as strings and \<^verbatim>\<open>sections\<close> as a list, of any length, of objects that have
  \<^verbatim>\<open>title\<close> and \<^verbatim>\<open>description\<close> as strings.
\<close>

theorem outline_generator_schema_failure:
  assumes "llm_call env (messages st) = Inr response"
      and "create_guide_outline env st w = (res, st', w')"
  shows "((res = Inl JSONDecodeError \<or> res = Inl TypeError \<or> res = Inl ValidationError)
           \<longleftrightarrow> (json_loads env response = None
                \<or> (\<exists>d. json_loads env response = Some d \<and> (\<forall>outline. GuideOutline_init d \<noteq> Inr outline))))
       \<and> (res = Inl JSONDecodeError \<or> res = Inl TypeError \<or> res = Inl ValidationError
            \<longrightarrow> st' = st \<and> files w' = files w \<and> dirs w' = dirs w)
       \<and> (\<forall>d outline. json_loads env response = Some d \<and> GuideOutline_init d = Inr outline
            \<longrightarrow> guide_outline st' = Some outline \<and> (res = Inr outline \<or> res = Inl OSError))
       \<and> (\<forall>outline. res = Inr outline \<longrightarrow>
             (\<exists>d. json_loads env response = Some d \<and> GuideOutline_init d = Inr outline)
             \<and> guide_outline st' = Some outline)
       \<and> (\<forall>outline. GuideOutline_init (GuideOutline_to_json outline) = Inr outline)
       \<and> (\<forall>d outline. GuideOutline_init d = Inr outline \<longleftrightarrow>
             (\<exists>kvs js. d = JObj kvs
                \<and> map_of kvs ''title'' = Some (JStr (GuideOutline.title outline))
                \<and> map_of kvs ''introduction'' = Some (JStr (introduction outline))
                \<and> map_of kvs ''target_audience'' = Some (JStr (target_audience outline))
                \<and> map_of kvs ''sections'' = Some (JArr js)
                \<and> list_all2 (\<lambda>j s. \<exists>kvs. j = JObj kvs
                        \<and> map_of kvs ''title'' = Some (JStr (Section.title s))
                        \<and> map_of kvs ''description'' = Some (JStr (description s)))
                      js (sections outline)
                \<and> map_of kvs ''conclusion'' = Some (JStr (conclusion outline))))"
proof (intro conjI)
  note schema = create_guide_outline_schema[OF assms]
  show "(res = Inl JSONDecodeError \<or> res = Inl TypeError \<or> res = Inl ValidationError)
           \<longleftrightarrow> (json_loads env response = None
                \<or> (\<exists>d. json_loads env response = Some d \<and> (\<forall>outline. GuideOutline_init d \<noteq> Inr outline)))"
    using schema by (rule conjunct1)
  show "res = Inl JSONDecodeError \<or> res = Inl TypeError \<or> res = Inl ValidationError
            \<longrightarrow> st' = st \<and> files w' = files w \<and> dirs w' = dirs w"
    using schema by (elim conjE)
  show "\<forall>d outline. json_loads env response = Some d \<and> GuideOutline_init d = Inr outline
            \<longrightarrow> guide_outline st' = Some outline \<and> (res = Inr outline \<or> res = Inl OSError)"
    using schema by (elim conjE)
  show "\<forall>outline. res = Inr outline \<longrightarrow>
             (\<exists>d. json_loads env response = Some d \<and> GuideOutline_init d = Inr outline)
             \<and> guide_outline st' = Some outline"
    using schema by (elim conjE)
  show "\<forall>outline. GuideOutline_init (GuideOutline_to_json outline) = Inr outline"
    by (simp add: GuideOutline_init_to_json)
  show "\<forall>d outline. GuideOutline_init d = Inr outline \<longleftrightarrow>
             (\<exists>kvs js. d = JObj kvs
                \<and> map_of kvs ''title'' = Some (JStr (GuideOutline.title outline))
                \<and> map_of kvs ''introduction'' = Some (JStr (introduction outline))
                \<and> map_of kvs ''target_audience'' = Some (JStr (target_audience outline))
                \<and> map_of kvs ''sections'' = Some (JArr js)
                \<and> list_all2 (\<lambda>j s. \<exists>kvs. j = JObj kvs
                        \<and> map_of kvs ''title'' = Some (JStr (Section.title s))
                        \<and> map_of kvs ''description'' = Some (JStr (description s)))
                      js (sections outline)
                \<and> map_of kvs ''conclusion'' = Some (JStr (conclusion outline)))"
    by (simp only: GuideOutline_init_Inr sections_validate_Some) blast
qed

theorem outline_generator_schema_failure_witness:
  "llm_call chatty_env (messages demo_state) = Inr ''Sure! Here is your outline:''
   \<and> json_loads chatty_env ''Sure! Here is your outline:'' = None
   \<and> (fst (create_guide_outline chatty_env demo_state stubborn_world) = Inl JSONDecodeError
        \<or> fst (create_guide_outline chatty_env demo_state stubborn_world) = Inl TypeError
        \<or> fst (create_guide_outline chatty_env demo_state stubborn_world) = Inl ValidationError)
   \<and> fst (snd (create_guide_outline chatty_env demo_state stubborn_world)) = demo_state
   \<and> llm_call listing_env (messages demo_state) = Inr ''[]''
   \<and> json_loads listing_env ''[]'' = Some (JArr [])
   \<and> (fst (create_guide_outline listing_env demo_state stubborn_world) = Inl JSONDecodeError
        \<or> fst (create_guide_outline listing_env demo_state stubborn_world) = Inl TypeError
        \<or> fst (create_guide_outline listing_env demo_state stubborn_world) = Inl ValidationError)
   \<and> llm_call outline_env (messages demo_state) = Inr demo_response
   \<and> json_loads outline_env demo_response = Some demo_outline_dict
   \<and> GuideOutline_init demo_outline_dict = Inr demo_outline
   \<and> length (sections demo_outline) = 2
   \<and> fst (create_guide_outline outline_env demo_state stubborn_world) = Inr demo_outline
   \<and> guide_outline (fst (snd (create_guide_outline outline_env demo_state stubborn_world)))
       = Some demo_outline"
proof -
  let ?bad = "create_guide_outline chatty_env demo_state stubborn_world"
  let ?list = "create_guide_outline listing_env demo_state stubborn_world"
  let ?good = "create_guide_outline outline_env demo_state stubborn_world"
  have bad: "?bad = (fst ?bad, fst (snd ?bad), snd (snd ?bad))" by simp
  have list: "?list = (fst ?list, fst (snd ?list), snd (snd ?list))" by simp
  have good: "?good = (fst ?good, fst (snd ?good), snd (snd ?good))" by simp
  note failure = outline_generator_schema_failure[OF chatty_env_calls(1) bad]
  note mismatch = outline_generator_schema_failure[OF listing_env_calls(1) list]
  note success = outline_generator_schema_failure[OF outline_env_calls(1) good]
  from failure chatty_env_calls(2) have schema:
    "fst ?bad = Inl JSONDecodeError \<or> fst ?bad = Inl TypeError \<or> fst ?bad = Inl ValidationError"
    by blast
  with failure have unchanged: "fst (snd ?bad) = demo_state" by blast
  have "\<exists>d. json_loads listing_env ''[]'' = Some d \<and> (\<forall>outline. GuideOutline_init d \<noteq> Inr outline)"
    using listing_env_calls(2,3) by simp
  with mismatch have shape:
    "fst ?list = Inl JSONDecodeError \<or> fst ?list = Inl TypeError \<or> fst ?list = Inl ValidationError"
    by blast
  from success outline_env_calls(2) demo_outline_dict_valid
  have stored: "guide_outline (fst (snd ?good)) = Some demo_outline" by blast
  have returned: "fst ?good = Inr demo_outline" by (simp add: outline_run)
  from success returned
  have "\<exists>d. json_loads outline_env demo_response = Some d \<and> GuideOutline_init d = Inr demo_outline"
    by blast
  have two: "length (sections demo_outline) = 2" by (simp add: demo_outline_def)
  from schema unchanged shape stored returned two chatty_env_calls listing_env_calls(1,2)
    outline_env_calls(1,2) demo_outline_dict_valid
  show ?thesis by blast
qed

text \<open>
  Claim C8. A line whose lower-case form is one of the three levels is accepted at once:
  one line is read and the level stored in lower case. Any other line changes nothing
  and the loop reads the next one, so after any number of such lines the first valid
  line is accepted, and when no valid line ever comes the loop never returns; the only
  exception the loop can end with is the end of the input. The topic is the first line,
  whatever it is.
\<close>

theorem audience_level_collection:
  "(\<forall>line. stdin w (stdin_pos w) = Some line
            \<and> lower line \<in> {''beginner'', ''intermediate'', ''advanced''} \<longrightarrow>
       audience_loop st w =
         Some (Inr (), st\<lparr>audience_level := lower line\<rparr>, w\<lparr>stdin_pos := Suc (stdin_pos w)\<rparr>))
   \<and> (\<forall>line. stdin w (stdin_pos w) = Some line
            \<and> lower line \<notin> {''beginner'', ''intermediate'', ''advanced''} \<longrightarrow>
       audience_loop st w = audience_loop st (w\<lparr>stdin_pos := Suc (stdin_pos w)\<rparr>))
   \<and> (\<forall>n good.
         (\<forall>k<n. \<exists>line. stdin w (stdin_pos w + k) = Some line
                    \<and> lower line \<notin> {''beginner'', ''intermediate'', ''advanced''})
         \<and> stdin w (stdin_pos w + n) = Some good
         \<and> lower good \<in> {''beginner'', ''intermediate'', ''advanced''} \<longrightarrow>
       audience_loop st w =
         Some (Inr (), st\<lparr>audience_level := lower good\<rparr>,
               w\<lparr>stdin_pos := stdin_pos w + n + 1\<rparr>))
   \<and> ((\<forall>k. \<exists>line. stdin w (stdin_pos w + k) = Some line
                 \<and> lower line \<notin> {''beginner'', ''intermediate'', ''advanced''}) \<longrightarrow>
       audience_loop st w = None)
   \<and> (\<forall>r st2 w2. audience_loop st w = Some (Inl r, st2, w2) \<longrightarrow> r = EOFError)
   \<and> (\<forall>line. stdin w (stdin_pos w) = Some line \<longrightarrow>
         get_user_input st w =
           (case audience_loop (st\<lparr>topic := line\<rparr>) (w\<lparr>stdin_pos := Suc (stdin_pos w)\<rparr>) of
              None \<Rightarrow> None
            | Some (Inl e, st2, w2) \<Rightarrow> Some (Inl e, st2, w2)
            | Some (Inr u, st2, w2) \<Rightarrow> Some (Inr st2, st2, w2))
       \<and> (\<forall>r st2 w2. get_user_input st w = Some (r, st2, w2) \<longrightarrow> topic st2 = line))"
proof (intro conjI allI impI)
  fix line
  assume "stdin w (stdin_pos w) = Some line
            \<and> lower line \<in> {''beginner'', ''intermediate'', ''advanced''}"
  then show "audience_loop st w =
         Some (Inr (), st\<lparr>audience_level := lower line\<rparr>, w\<lparr>stdin_pos := Suc (stdin_pos w)\<rparr>)"
    using audience_loop_accept by blast
next
  fix line
  assume "stdin w (stdin_pos w) = Some line
            \<and> lower line \<notin> {''beginner'', ''intermediate'', ''advanced''}"
  then show "audience_loop st w = audience_loop st (w\<lparr>stdin_pos := Suc (stdin_pos w)\<rparr>)"
    using audience_loop_reject by blast
next
  fix n good
  assume "(\<forall>k<n. \<exists>line. stdin w (stdin_pos w + k) = Some line
                    \<and> lower line \<notin> {''beginner'', ''intermediate'', ''advanced''})
         \<and> stdin w (stdin_pos w + n) = Some good
         \<and> lower good \<in> {''beginner'', ''intermediate'', ''advanced''}"
  then show "audience_loop st w =
         Some (Inr (), st\<lparr>audience_level := lower good\<rparr>,
               w\<lparr>stdin_pos := stdin_pos w + n + 1\<rparr>)"
    using audience_loop_retries[of n w good st] by blast
next
  assume "\<forall>k. \<exists>line. stdin w (stdin_pos w + k) = Some line
                 \<and> lower line \<notin> {''beginner'', ''intermediate'', ''advanced''}"
  then show "audience_loop st w = None"
    by (rule audience_loop_never_returns)
next
  fix r st2 w2
  assume "audience_loop st w = Some (Inl r, st2, w2)"
  from audience_loop_result[OF this] show "r = EOFError" by simp
next
  fix line
  assume line: "stdin w (stdin_pos w) = Some line"
  then show "get_user_input st w =
           (case audience_loop (st\<lparr>topic := line\<rparr>) (w\<lparr>stdin_pos := Suc (stdin_pos w)\<rparr>) of
              None \<Rightarrow> None
            | Some (Inl e, st2, w2) \<Rightarrow> Some (Inl e, st2, w2)
            | Some (Inr u, st2, w2) \<Rightarrow> Some (Inr st2, st2, w2))"
    by (simp add: get_user_input_def input_def)
next
  fix line r st2 w2
  assume line: "stdin w (stdin_pos w) = Some line"
    and ret: "get_user_input st w = Some (r, st2, w2)"
  from ret line obtain r' where
    "audience_loop (st\<lparr>topic := line\<rparr>) (w\<lparr>stdin_pos := Suc (stdin_pos w)\<rparr>) = Some (r', st2, w2)"
    by (auto simp add: get_user_input_def input_def split: option.splits sum.splits)
  from audience_loop_result[OF this] show "topic st2 = line" by simp
qed

theorem audience_level_collection_witness:
  "lower ''Beginner'' = ''beginner''
   \<and> audience_loop GuideCreatorState_init (typed_world\<lparr>stdin_pos := 2\<rparr>) =
       Some (Inr (), GuideCreatorState_init\<lparr>audience_level := ''beginner''\<rparr>,
             typed_world\<lparr>stdin_pos := 3\<rparr>)
   \<and> audience_loop GuideCreatorState_init (typed_world\<lparr>stdin_pos := 1\<rparr>) =
       audience_loop GuideCreatorState_init (typed_world\<lparr>stdin_pos := 2\<rparr>)
   \<and> audience_loop GuideCreatorState_init stubborn_world = None
   \<and> audience_loop GuideCreatorState_init (typed_world\<lparr>stdin_pos := 3\<rparr>) =
       Some (Inl EOFError, GuideCreatorState_init, typed_world\<lparr>stdin_pos := 3\<rparr>)
   \<and> get_user_input GuideCreatorState_init typed_world =
       Some (Inr (GuideCreatorState_init\<lparr>topic := ''Home Gardening'', audience_level := ''beginner''\<rparr>),
             GuideCreatorState_init\<lparr>topic := ''Home Gardening'', audience_level := ''beginner''\<rparr>,
             typed_world\<lparr>stdin_pos := 3\<rparr>)
   \<and> topic (fst (snd (the (get_user_input GuideCreatorState_init typed_world)))) = ''Home Gardening''"
proof -
  let ?st = GuideCreatorState_init
  let ?w3 = "typed_world\<lparr>stdin_pos := 3\<rparr>"
  let ?w2 = "typed_world\<lparr>stdin_pos := 2\<rparr>"
  let ?w1 = "typed_world\<lparr>stdin_pos := 1\<rparr>"
  note low = lower_examples
  have good: "stdin ?w2 (stdin_pos ?w2) = Some ''Beginner''
      \<and> lower ''Beginner'' \<in> {''beginner'', ''intermediate'', ''advanced''}"
    by (simp add: typed_world_def low)
  have bad: "stdin ?w1 (stdin_pos ?w1) = Some ''expert''
      \<and> lower ''expert'' \<notin> {''beginner'', ''intermediate'', ''advanced''}"
    by (simp add: typed_world_def low)
  have never: "\<forall>k. \<exists>line. stdin stubborn_world (stdin_pos stubborn_world + k) = Some line
                 \<and> lower line \<notin> {''beginner'', ''intermediate'', ''advanced''}"
    by (simp add: stubborn_world_def low)
  have first: "stdin typed_world (stdin_pos typed_world) = Some ''Home Gardening''"
    by (simp add: typed_world_def)
  have retry: "(\<forall>k<1. \<exists>line. stdin ?w1 (stdin_pos ?w1 + k) = Some line
                    \<and> lower line \<notin> {''beginner'', ''intermediate'', ''advanced''})
         \<and> stdin ?w1 (stdin_pos ?w1 + 1) = Some ''Beginner''
         \<and> lower ''Beginner'' \<in> {''beginner'', ''intermediate'', ''advanced''}"
    by (simp add: typed_world_def low)
  have accepted: "audience_loop ?st ?w2 =
       Some (Inr (), ?st\<lparr>audience_level := ''beginner''\<rparr>, ?w3)"
    using audience_level_collection[where w = ?w2 and st = ?st] good
    by (simp add: low numeral_2_eq_2 numeral_3_eq_3)
  have rejected: "audience_loop ?st ?w1 = audience_loop ?st ?w2"
    using audience_level_collection[where w = ?w1 and st = ?st] bad
    by (simp add: numeral_2_eq_2)
  have stubborn: "audience_loop ?st stubborn_world = None"
    using audience_level_collection[where w = stubborn_world and st = ?st] never
    by blast
  have ended: "audience_loop ?st ?w3 = Some (Inl EOFError, ?st, ?w3)"
    by (simp add: audience_loop_eof typed_world_def)
  from audience_level_collection[where w = ?w3 and st = ?st,
         THEN conjunct2, THEN conjunct2, THEN conjunct2, THEN conjunct2, THEN conjunct1,
         rule_format, OF ended]
  have "EOFError = EOFError" .
  have retried: "audience_loop (?st\<lparr>topic := ''Home Gardening''\<rparr>) ?w1 =
       Some (Inr (), ?st\<lparr>topic := ''Home Gardening'', audience_level := ''beginner''\<rparr>, ?w3)"
    using audience_level_collection[where w = ?w1 and st = "?st\<lparr>topic := ''Home Gardening''\<rparr>",
            THEN conjunct2, THEN conjunct2, THEN conjunct1, rule_format, OF retry]
    by (simp add: low numeral_3_eq_3)
  have pos: "typed_world\<lparr>stdin_pos := Suc (stdin_pos typed_world)\<rparr> = ?w1"
    by (simp add: typed_world_def)
  note topic_line = audience_level_collection[where w = typed_world and st = ?st,
         THEN conjunct2, THEN conjunct2, THEN conjunct2, THEN conjunct2, THEN conjunct2,
         rule_format, OF first]
  from topic_line have "get_user_input ?st typed_world =
           (case audience_loop (?st\<lparr>topic := ''Home Gardening''\<rparr>)
                   (typed_world\<lparr>stdin_pos := Suc (stdin_pos typed_world)\<rparr>) of
              None \<Rightarrow> None
            | Some (Inl e, st2, w2) \<Rightarrow> Some (Inl e, st2, w2)
            | Some (Inr u, st2, w2) \<Rightarrow> Some (Inr st2, st2, w2))"
    by blast
  then have collected: "get_user_input ?st typed_world =
       Some (Inr (?st\<lparr>topic := ''Home Gardening'', audience_level := ''beginner''\<rparr>),
             ?st\<lparr>topic := ''Home Gardening'', audience_level := ''beginner''\<rparr>, ?w3)"
    by (simp only: pos retried) simp
  from topic_line have "\<forall>r st2 w2. get_user_input ?st typed_world = Some (r, st2, w2)
        \<longrightarrow> topic st2 = ''Home Gardening''"
    by blast
  from this[rule_format, OF collected]
  have kept: "topic (fst (snd (the (get_user_input ?st typed_world)))) = ''Home Gardening''"
    by (simp add: collected)
  from low(1) accepted rejected stubborn ended collected kept show ?thesis by blast
qed

text \<open>
  Claim C9. In a completed run on an outline in which sections \<open>i < j\<close> have the same
  title, the content of section \<open>i\<close> is stored after its own iteration, but at the end
  the title maps to the text returned for the last section of that title, which comes
  no earlier than \<open>j\<close>; the document has that text at every position of the title.
\<close>

theorem duplicate_titles_overwrite:
  assumes "write_and_compile_guide env outline st w = (Inr msg, st', w')"
      and "i < j" and "j < length (sections outline)"
      and "Section.title (sections outline ! i) = Section.title (sections outline ! j)"
  shows "let secs = sections outline;
             new = new_kickoffs w w';
             latest = (\<lambda>k. last_with_title secs (length secs) (Section.title (secs ! k)))
         in map_of (sections_content (fst (snd (write_sections env (take (Suc i) secs) [] st w))))
               (Section.title (secs ! i)) = Some (projr (snd (new ! i)))
          \<and> j \<le> latest j \<and> latest j < length secs \<and> latest i = latest j
          \<and> map_of (sections_content st') (Section.title (secs ! i)) = Some (projr (snd (new ! latest j)))
          \<and> map_of (files w') ''output/complete_guide.md'' =
               Some (''# '' @ GuideOutline.title outline @ ''\<newline>\<newline>'' @
                     ''## Introduction\<newline>\<newline>'' @ introduction outline @ ''\<newline>\<newline>'' @
                     concat (map (\<lambda>k. ''\<newline>\<newline>'' @ projr (snd (new ! latest k)) @ ''\<newline>\<newline>'')
                               [0..<length secs]) @
                     ''## Conclusion\<newline>\<newline>'' @ conclusion outline @ ''\<newline>\<newline>'')"
proof -
  let ?secs = "sections outline"
  let ?K = "length ?secs"
  let ?latest = "\<lambda>k. last_with_title ?secs ?K (Section.title (?secs ! k))"
  note fin = completed_run_contents[OF assms(1)]
  have i: "i < ?K" using assms(2,3) by simp
  have same: "?latest i = ?latest j" by (simp add: assms(4))
  have latest: "j \<le> ?latest j" "?latest j < ?K"
    using last_with_title_props[OF assms(3), of ?secs] by simp_all
  have bodies: "map (\<lambda>k. ''\<newline>\<newline>'' @ dict_get (sections_content st') (Section.title (?secs ! k)) ''''
                            @ ''\<newline>\<newline>'') [0..<?K]
              = map (\<lambda>k. ''\<newline>\<newline>'' @ projr (snd (new_kickoffs w w' ! ?latest k))
                            @ ''\<newline>\<newline>'') [0..<?K]"
    by (intro map_cong refl) (simp add: dict_get_def fin(2))
  have doc: "map_of (files w') ''output/complete_guide.md'' =
               Some (''# '' @ GuideOutline.title outline @ ''\<newline>\<newline>'' @
                     ''## Introduction\<newline>\<newline>'' @ introduction outline @ ''\<newline>\<newline>'' @
                     concat (map (\<lambda>k. ''\<newline>\<newline>'' @ projr (snd (new_kickoffs w w' ! ?latest k))
                                        @ ''\<newline>\<newline>'')
                               [0..<?K]) @
                     ''## Conclusion\<newline>\<newline>'' @ conclusion outline @ ''\<newline>\<newline>'')"
    by (simp only: fin(1) guide_content_concat bodies)
  have final: "map_of (sections_content st') (Section.title (?secs ! i)) =
                 Some (projr (snd (new_kickoffs w w' ! ?latest j)))"
    using fin(2)[OF i] by (simp only: same)
  show ?thesis
    unfolding Let_def
    using completed_prefix_run[OF assms(1) i] latest same final doc by blast
qed

theorem duplicate_titles_overwrite_witness:
  "fst (write_and_compile_guide demo_env repeated_outline demo_state demo_world)
     = Inr ''Guide creation completed successfully''
   \<and> (0::nat) < 2 \<and> 2 < length (sections repeated_outline)
   \<and> Section.title (sections repeated_outline ! 0) = Section.title (sections repeated_outline ! 2)
   \<and> map_of (sections_content (fst (snd
          (write_sections demo_env (take (Suc 0) (sections repeated_outline)) [] demo_state demo_world))))
        ''Soil'' = Some ''## Soil: Kinds of soil''
   \<and> map_of (sections_content (fst (snd
          (write_and_compile_guide demo_env repeated_outline demo_state demo_world))))
        ''Soil'' = Some ''## Soil: Improving it''"
proof -
  let ?run = "write_and_compile_guide demo_env repeated_outline demo_state demo_world"
  let ?new = "new_kickoffs demo_world (snd (snd ?run))"
  have run: "?run = (Inr ''Guide creation completed successfully'', fst (snd ?run), snd (snd ?run))"
    by (simp add: repeated_run)
  have hyps: "(0::nat) < 2" "2 < length (sections repeated_outline)"
    "Section.title (sections repeated_outline ! 0) = Section.title (sections repeated_outline ! 2)"
    by (simp_all add: repeated_outline_def)
  have soil: "Section.title (sections repeated_outline ! 0) = ''Soil''"
    by (simp add: repeated_outline_def)
  have latest: "last_with_title (sections repeated_outline) (length (sections repeated_outline))
                  (Section.title (sections repeated_outline ! 2)) = 2"
    by (simp add: last_with_title_def repeated_outline_def upt_rec)
  have texts: "projr (snd (?new ! 0)) = ''## Soil: Kinds of soil''"
    "projr (snd (?new ! 2)) = ''## Soil: Improving it''"
    using repeated_new_kickoffs
    by (simp_all add: map_eq_Cons_conv nth_Cons' split: if_splits, auto)
  note overwrite = duplicate_titles_overwrite[OF run hyps, unfolded Let_def]
  from overwrite have "map_of (sections_content (fst (snd
          (write_sections demo_env (take (Suc 0) (sections repeated_outline)) [] demo_state demo_world))))
        (Section.title (sections repeated_outline ! 0)) = Some (projr (snd (?new ! 0)))"
    by (rule conjunct1)
  then have before: "map_of (sections_content (fst (snd
          (write_sections demo_env (take (Suc 0) (sections repeated_outline)) [] demo_state demo_world))))
        ''Soil'' = Some ''## Soil: Kinds of soil''"
    by (simp only: soil texts)
  from overwrite have "map_of (sections_content (fst (snd ?run))) (Section.title (sections repeated_outline ! 0))
      = Some (projr (snd (?new ! last_with_title (sections repeated_outline)
            (length (sections repeated_outline)) (Section.title (sections repeated_outline ! 2)))))"
    by blast
  then have after: "map_of (sections_content (fst (snd ?run))) ''Soil'' = Some ''## Soil: Improving it''"
    by (simp only: soil latest texts)
  from before after hyps show ?thesis
    by (simp add: repeated_run)
qed

text \<open>
  Claim C10. When neither the constructor of the crew nor the lookup of its
  \<^verbatim>\<open>run\<close> raises, the endpoint answers with the status, the topic and the audience
  of the request and adds one task, on the outline titled from the topic with empty
  introduction, sections and conclusion; when one of them raises, it answers with status
  500 and the message of the exception, and adds no task. There is no other outcome.
\<close>

theorem create_guide_response:
  "(ContentCrew_init = None \<and> crew_run = None \<longrightarrow>
      create_guide ContentCrew_init crew_run request background_tasks =
        (Inr [(''status'', ''Guide creation task started successfully''),
              (''topic'', GuideRequest.topic request),
              (''target_audience'', GuideRequest.target_audience request)],
         background_tasks @
           [\<lparr>GuideOutline.title = ''Comprehensive Guide to '' @ GuideRequest.topic request,
             introduction = '''',
             GuideOutline.target_audience = GuideRequest.target_audience request,
             sections = [],
             conclusion = ''''\<rparr>]))
   \<and> (\<forall>e. ContentCrew_init = Some e \<or> (ContentCrew_init = None \<and> crew_run = Some e) \<longrightarrow>
          create_guide ContentCrew_init crew_run request background_tasks =
            (Inl (HTTPException 500 e), background_tasks))
   \<and> (\<forall>ack tasks. create_guide ContentCrew_init crew_run request background_tasks = (Inr ack, tasks) \<longrightarrow>
          map fst ack = [''status'', ''topic'', ''target_audience'']
          \<and> (\<exists>outline. tasks = background_tasks @ [outline]
                \<and> introduction outline = '''' \<and> sections outline = [] \<and> conclusion outline = ''''))
   \<and> (\<forall>err tasks. create_guide ContentCrew_init crew_run request background_tasks = (Inl err, tasks) \<longrightarrow>
          tasks = background_tasks
          \<and> (\<exists>e. err = HTTPException 500 e \<and> (ContentCrew_init = Some e \<or> crew_run = Some e)))"
proof (cases ContentCrew_init)
  case (Some e)
  then show ?thesis
    by (simp add: create_guide_def)
next
  case None
  show ?thesis
  proof (cases crew_run)
    case (Some e)
    with None show ?thesis
      by (simp add: create_guide_def)
  next
    case no_error: None
    with None show ?thesis
      by (simp add: create_guide_def)
  qed
qed

theorem create_guide_response_witness:
  "create_guide None None demo_request [] =
     (Inr [(''status'', ''Guide creation task started successfully''),
           (''topic'', ''Home Gardening''), (''target_audience'', ''beginner'')],
      [\<lparr>GuideOutline.title = ''Comprehensive Guide to Home Gardening'', introduction = '''',
        GuideOutline.target_audience = ''beginner'', sections = [], conclusion = ''''\<rparr>])
   \<and> map fst (projr (fst (create_guide None None demo_request [])))
       = [''status'', ''topic'', ''target_audience'']
   \<and> create_guide None (Some ''no attribute run'') demo_request [] =
       (Inl (HTTPException 500 ''no attribute run''), [])
   \<and> create_guide (Some ''no configuration'') None demo_request [] =
       (Inl (HTTPException 500 ''no configuration''), [])
   \<and> snd (create_guide (Some ''no configuration'') None demo_request []) = []"
proof -
  have "(None :: string option) = None \<and> (None :: string option) = None" by simp
  with create_guide_response[of None None demo_request "[]"]
  have ok: "create_guide None None demo_request [] =
     (Inr [(''status'', ''Guide creation task started successfully''),
           (''topic'', ''Home Gardening''), (''target_audience'', ''beginner'')],
      [\<lparr>GuideOutline.title = ''Comprehensive Guide to Home Gardening'', introduction = '''',
        GuideOutline.target_audience = ''beginner'', sections = [], conclusion = ''''\<rparr>])"
    by (simp add: demo_request_def)
  from create_guide_response[of None None demo_request "[]",
         THEN conjunct2, THEN conjunct2, THEN conjunct1, rule_format, OF ok]
  have keys: "map fst (projr (fst (create_guide None None demo_request [])))
       = [''status'', ''topic'', ''target_audience'']"
    by (simp add: ok)
  have "(None :: string option) = Some ''no attribute run''
      \<or> ((None :: string option) = None \<and> Some ''no attribute run'' = Some ''no attribute run'')"
    by simp
  with create_guide_response[of None "Some ''no attribute run''" demo_request "[]"]
  have lookup: "create_guide None (Some ''no attribute run'') demo_request [] =
       (Inl (HTTPException 500 ''no attribute run''), [])"
    by blast
  have "Some ''no configuration'' = Some ''no configuration''
      \<or> (Some ''no configuration'' = None \<and> (None :: string option) = Some ''no configuration'')"
    by simp
  with create_guide_response[of "Some ''no configuration''" None demo_request "[]"]
  have ctor: "create_guide (Some ''no configuration'') None demo_request [] =
       (Inl (HTTPException 500 ''no configuration''), [])"
    by blast
  from create_guide_response[of "Some ''no configuration''" None demo_request "[]",
         THEN conjunct2, THEN conjunct2, THEN conjunct2, rule_format, OF ctor]
  have none: "snd (create_guide (Some ''no configuration'') None demo_request []) = []"
    by (simp add: ctor)
  from ok keys lookup ctor none show ?thesis by blast
qed

end
